theory Spec2Isabelle
  imports Main "HOL-Library.Word"
begin

section \<open>Python built-ins used by the audio pipeline of app.py\<close>

text \<open>
  Python \<open>str\<close> values are modelled as \<open>string\<close>: lists of characters with code points
  0..255. Within that range the built-ins below follow CPython: \<open>str.isspace\<close> (used by
  \<open>str.strip\<close>) holds for 9..13, 28..32, 133 and 160; \<open>str.lower\<close> maps A..Z and the
  Latin-1 capitals 192..222 (except 215) 32 places up; \<open>int(str)\<close> skips the whitespace
  9..13, 32, 133 and 160 on both sides, takes one optional sign and then decimal digits
  with single underscores between digits, and refuses more than 4300 digits.
  \<open>bytes\<close> values are lists of 8-bit words.
\<close>

type_synonym bytes = "8 word list"

datatype error =
    ValueError
  | IndexError
  | StructError
  | TypeError
  | PyException string

definition ord :: "char \<Rightarrow> nat" where
  "ord c = of_char c"

definition isspace :: "char \<Rightarrow> bool" where
  "isspace c = (let n = ord c in (9 \<le> n \<and> n \<le> 13) \<or> (28 \<le> n \<and> n \<le> 32) \<or> n = 133 \<or> n = 160)"

definition strip :: "string \<Rightarrow> string" where
  "strip s = rev (dropWhile isspace (rev (dropWhile isspace s)))"

definition lower_char :: "char \<Rightarrow> char" where
  "lower_char c =
     (let n = ord c
      in if (65 \<le> n \<and> n \<le> 90) \<or> (192 \<le> n \<and> n \<le> 222 \<and> n \<noteq> 215) then char_of (n + 32) else c)"

definition lower :: "string \<Rightarrow> string" where
  "lower s = map lower_char s"

definition startswith :: "string \<Rightarrow> string \<Rightarrow> bool" where
  "startswith s p = (take (length p) s = p)"

text \<open>\<open>s.split(sep)\<close> for a one-character separator: every occurrence cuts.\<close>

fun split_all :: "char \<Rightarrow> string \<Rightarrow> string list" where
  "split_all sep [] = [[]]"
| "split_all sep (c # cs) =
     (if c = sep then [] # split_all sep cs
      else (case split_all sep cs of
              [] \<Rightarrow> [[c]]
            | x # xs \<Rightarrow> (c # x) # xs))"

text \<open>\<open>s.split(sep, 1)\<close>: only the first occurrence cuts.\<close>

definition split1 :: "char \<Rightarrow> string \<Rightarrow> string list" where
  "split1 sep s =
     (if sep \<in> set s
      then [takeWhile (\<lambda>c. c \<noteq> sep) s, tl (dropWhile (\<lambda>c. c \<noteq> sep) s)]
      else [s])"

text \<open>\<open>xs[i]\<close> for a non-negative index: IndexError out of range.\<close>

definition getitem :: "'a list \<Rightarrow> nat \<Rightarrow> error + 'a" where
  "getitem xs i = (if i < length xs then Inr (xs ! i) else Inl IndexError)"

definition int_space :: "char \<Rightarrow> bool" where
  "int_space c = (let n = ord c in (9 \<le> n \<and> n \<le> 13) \<or> n = 32 \<or> n = 133 \<or> n = 160)"

definition digit_val :: "char \<Rightarrow> nat option" where
  "digit_val c = (let n = ord c in if 48 \<le> n \<and> n \<le> 57 then Some (n - 48) else None)"

text \<open>The digits after the first one: each is a digit, or an underscore followed by a digit.\<close>

fun parse_digits :: "nat \<Rightarrow> string \<Rightarrow> nat option" where
  "parse_digits acc [] = Some acc"
| "parse_digits acc [c] =
     (case digit_val c of None \<Rightarrow> None | Some v \<Rightarrow> Some (10 * acc + v))"
| "parse_digits acc (c # d # ds) =
     (if c = CHR ''_''
      then (case digit_val d of None \<Rightarrow> None | Some v \<Rightarrow> parse_digits (10 * acc + v) ds)
      else (case digit_val c of None \<Rightarrow> None | Some v \<Rightarrow> parse_digits (10 * acc + v) (d # ds)))"

definition int_max_str_digits :: nat where
  "int_max_str_digits = 4300"

text \<open>Python's \<open>int(s)\<close> on a string, base 10: ValueError on anything but an integer literal.\<close>

definition int_of_str :: "string \<Rightarrow> error + int" where
  "int_of_str s =
     (let t = rev (dropWhile int_space (rev (dropWhile int_space s)));
          neg = startswith t ''-'';
          body = (if startswith t ''-'' \<or> startswith t ''+'' then tl t else t)
      in case body of
           [] \<Rightarrow> Inl ValueError
         | c # cs \<Rightarrow>
             (case digit_val c of
                None \<Rightarrow> Inl ValueError
              | Some v \<Rightarrow>
                  (case parse_digits v cs of
                     None \<Rightarrow> Inl ValueError
                   | Some n \<Rightarrow>
                       if int_max_str_digits < length (filter (\<lambda>x. x \<noteq> CHR ''_'') body)
                       then Inl ValueError
                       else Inr (if neg then - int n else int n))))"

section \<open>MIME parameter parser: \<open>parse_audio_mime_type\<close>\<close>

record audio_params =
  bits_per_sample :: int
  rate :: int

text \<open>The body of the first \<open>try\<close>: \<open>int(param.split("=", 1)[1])\<close>.\<close>

definition rate_of_param :: "string \<Rightarrow> error + int" where
  "rate_of_param param =
     (case getitem (split1 (CHR ''='') param) 1 of
        Inl e \<Rightarrow> Inl e
      | Inr rate_str \<Rightarrow> int_of_str rate_str)"

text \<open>The body of the second \<open>try\<close>: \<open>int(param.split("L", 1)[1])\<close>.\<close>

definition bits_of_param :: "string \<Rightarrow> error + int" where
  "bits_of_param param =
     (case getitem (split1 (CHR ''L'') param) 1 of
        Inl e \<Rightarrow> Inl e
      | Inr bits_str \<Rightarrow> int_of_str bits_str)"

text \<open>\<open>except (ValueError, IndexError): pass\<close>; any other error propagates.\<close>

definition caught :: "error \<Rightarrow> bool" where
  "caught e = (e = ValueError \<or> e = IndexError)"

text \<open>One iteration of \<open>for param in parts\<close>.\<close>

definition parse_param :: "audio_params \<Rightarrow> string \<Rightarrow> error + audio_params" where
  "parse_param acc raw =
     (let param = strip raw
      in if startswith (lower param) ''rate=''
         then (case rate_of_param param of
                 Inr r \<Rightarrow> Inr (acc\<lparr>rate := r\<rparr>)
               | Inl e \<Rightarrow> if caught e then Inr acc else Inl e)
         else if startswith param ''audio/L''
         then (case bits_of_param param of
                 Inr b \<Rightarrow> Inr (acc\<lparr>bits_per_sample := b\<rparr>)
               | Inl e \<Rightarrow> if caught e then Inr acc else Inl e)
         else Inr acc)"

fun parse_params :: "audio_params \<Rightarrow> string list \<Rightarrow> error + audio_params" where
  "parse_params acc [] = Inr acc"
| "parse_params acc (p # ps) =
     (case parse_param acc p of
        Inl e \<Rightarrow> Inl e
      | Inr acc' \<Rightarrow> parse_params acc' ps)"

definition parse_audio_mime_type :: "string \<Rightarrow> error + audio_params" where
  "parse_audio_mime_type mime_type =
     parse_params \<lparr>bits_per_sample = 16, rate = 24000\<rparr> (split_all (CHR '';'') mime_type)"

text \<open>
  The contract of the parser in the words of the specification, to compare the code with:
  a trimmed segment is a rate field when it reads \<open>rate=<value>\<close> (key in any case) and
  \<open><value>\<close> is an integer; it is a bit-depth field when it starts with \<open>audio/L\<close> and
  the text after the \<open>L\<close> is an integer. A well-formed field overrides, anything else
  keeps the current value.
\<close>

definition spec_rate_field :: "string \<Rightarrow> int option" where
  "spec_rate_field seg =
     (if lower (take 5 seg) = ''rate=''
      then (case int_of_str (drop 5 seg) of Inr v \<Rightarrow> Some v | Inl e \<Rightarrow> None)
      else None)"

definition spec_bits_field :: "string \<Rightarrow> int option" where
  "spec_bits_field seg =
     (if take 7 seg = ''audio/L''
      then (case int_of_str (drop 7 seg) of Inr v \<Rightarrow> Some v | Inl e \<Rightarrow> None)
      else None)"

definition spec_segment :: "audio_params \<Rightarrow> string \<Rightarrow> audio_params" where
  "spec_segment acc raw =
     (let seg = strip raw
      in case spec_rate_field seg of
           Some v \<Rightarrow> acc\<lparr>rate := v\<rparr>
         | None \<Rightarrow>
             (case spec_bits_field seg of
                Some b \<Rightarrow> acc\<lparr>bits_per_sample := b\<rparr>
              | None \<Rightarrow> acc))"

text \<open>
  The same contract once more, written without the helper functions of the code, to pin
  what trimming, the key in any case and splitting mean: whitespace is given by its code
  points, the key by its letters in both cases, and the segments of a string are such
  that joining them with the separator gives the string back.
\<close>

definition spec_whitespace :: "char \<Rightarrow> bool" where
  "spec_whitespace c =
     ((of_char c :: nat) \<in> set [9, 10, 11, 12, 13, 28, 29, 30, 31, 32, 133, 160])"

fun spec_trim_left :: "string \<Rightarrow> string" where
  "spec_trim_left [] = []"
| "spec_trim_left (c # cs) = (if spec_whitespace c then spec_trim_left cs else c # cs)"

definition spec_trim :: "string \<Rightarrow> string" where
  "spec_trim s = rev (spec_trim_left (rev (spec_trim_left s)))"

fun spec_rate_text :: "string \<Rightarrow> string option" where
  "spec_rate_text (r # a # t # e # q # v) =
     (if (r = CHR ''r'' \<or> r = CHR ''R'') \<and> (a = CHR ''a'' \<or> a = CHR ''A'')
         \<and> (t = CHR ''t'' \<or> t = CHR ''T'') \<and> (e = CHR ''e'' \<or> e = CHR ''E'')
         \<and> q = CHR ''=''
      then Some v else None)"
| "spec_rate_text seg = None"

definition spec_bits_text :: "string \<Rightarrow> string option" where
  "spec_bits_text seg = (if take 7 seg = ''audio/L'' then Some (drop 7 seg) else None)"

definition spec_step :: "audio_params \<Rightarrow> string \<Rightarrow> audio_params" where
  "spec_step acc raw =
     (case spec_rate_text (spec_trim raw) of
        Some v \<Rightarrow> (case int_of_str v of Inr n \<Rightarrow> acc\<lparr>rate := n\<rparr> | Inl e \<Rightarrow> acc)
      | None \<Rightarrow>
          (case spec_bits_text (spec_trim raw) of
             Some v \<Rightarrow> (case int_of_str v of Inr n \<Rightarrow> acc\<lparr>bits_per_sample := n\<rparr> | Inl e \<Rightarrow> acc)
           | None \<Rightarrow> acc))"

fun join_with :: "char \<Rightarrow> string list \<Rightarrow> string" where
  "join_with sep [] = []"
| "join_with sep [x] = x"
| "join_with sep (x # y # ys) = x @ sep # join_with sep (y # ys)"

section \<open>WAV encoder: \<open>convert_to_wav\<close>\<close>

text \<open>
  \<open>struct.pack\<close> with a little-endian format (\<open><\<close>, no padding). The three format codes
  of the header are the constructors of \<open>field\<close>: \<open>4s\<close> (four bytes, cut or zero-padded),
  \<open>I\<close> (unsigned 32-bit) and \<open>H\<close> (unsigned 16-bit). An integer outside the range of
  its code raises \<open>struct.error\<close>.
\<close>

datatype field = S4 bytes | U32 int | U16 int

fun le_bytes :: "nat \<Rightarrow> int \<Rightarrow> bytes" where
  "le_bytes 0 v = []"
| "le_bytes (Suc n) v = word_of_int v # le_bytes n (v div 256)"

fun pack_field :: "field \<Rightarrow> error + bytes" where
  "pack_field (S4 b) = Inr (take 4 b @ replicate (4 - length b) 0)"
| "pack_field (U32 v) = (if 0 \<le> v \<and> v \<le> 4294967295 then Inr (le_bytes 4 v) else Inl StructError)"
| "pack_field (U16 v) = (if 0 \<le> v \<and> v \<le> 65535 then Inr (le_bytes 2 v) else Inl StructError)"

fun struct_pack :: "field list \<Rightarrow> error + bytes" where
  "struct_pack [] = Inr []"
| "struct_pack (f # fs) =
     (case pack_field f of
        Inl e \<Rightarrow> Inl e
      | Inr b \<Rightarrow> (case struct_pack fs of Inl e \<Rightarrow> Inl e | Inr bs \<Rightarrow> Inr (b @ bs)))"

text \<open>A bytes literal such as \<open>b"RIFF"\<close>.\<close>

definition bytes_of :: "string \<Rightarrow> bytes" where
  "bytes_of s = map of_char s"

definition convert_to_wav :: "bytes \<Rightarrow> string \<Rightarrow> error + bytes" where
  "convert_to_wav audio_data mime =
     (case parse_audio_mime_type mime of
        Inl e \<Rightarrow> Inl e
      | Inr parameters \<Rightarrow>
          (let bits = bits_per_sample parameters;
               sample_rate = rate parameters;
               num_channels = 1;
               data_size = int (length audio_data);
               bytes_per_sample = bits div 8;
               block_align = num_channels * bytes_per_sample;
               byte_rate = sample_rate * block_align;
               chunk_size = 36 + data_size
           in case struct_pack
                     [S4 (bytes_of ''RIFF''), U32 chunk_size, S4 (bytes_of ''WAVE''),
                      S4 (bytes_of ''fmt ''), U32 16, U16 1, U16 num_channels, U32 sample_rate,
                      U32 byte_rate, U16 block_align, U16 bits, S4 (bytes_of ''data''),
                      U32 data_size] of
                Inl e \<Rightarrow> Inl e
              | Inr header \<Rightarrow> Inr (header @ audio_data)))"

text \<open>
  Reading a header back: the little-endian value of a byte list, and the unsigned field of
  \<open>n\<close> bytes at an offset of a buffer.
\<close>

fun le_value :: "bytes \<Rightarrow> int" where
  "le_value [] = 0"
| "le_value (b # bs) = uint b + 256 * le_value bs"

definition read_le :: "nat \<Rightarrow> nat \<Rightarrow> bytes \<Rightarrow> int" where
  "read_le off n buf = le_value (take n (drop off buf))"

text \<open>
  The ranges of the header's integer fields, as format codes \<open>I\<close> and \<open>H\<close> accept them,
  for parsed parameters \<open>p\<close> and a payload of \<open>n\<close> bytes.
\<close>

definition wav_fields_fit :: "audio_params \<Rightarrow> nat \<Rightarrow> bool" where
  "wav_fields_fit p n =
     (36 + int n \<le> 4294967295
      \<and> 0 \<le> rate p \<and> rate p \<le> 4294967295
      \<and> 0 \<le> rate p * (bits_per_sample p div 8) \<and> rate p * (bits_per_sample p div 8) \<le> 4294967295
      \<and> 0 \<le> bits_per_sample p div 8 \<and> bits_per_sample p div 8 \<le> 65535
      \<and> 0 \<le> bits_per_sample p \<and> bits_per_sample p \<le> 65535)"

text \<open>
  The header layout in the words of the specification (section 4.3, items 1 to 13), for
  parsed parameters \<open>p\<close> and a payload of \<open>n\<close> bytes, with one channel.
\<close>

definition spec_wav_header :: "audio_params \<Rightarrow> nat \<Rightarrow> bytes" where
  "spec_wav_header p n =
     bytes_of ''RIFF'' @ le_bytes 4 (36 + int n) @ bytes_of ''WAVE'' @ bytes_of ''fmt ''
     @ le_bytes 4 16 @ le_bytes 2 1 @ le_bytes 2 1 @ le_bytes 4 (rate p)
     @ le_bytes 4 (rate p * (1 * (bits_per_sample p div 8)))
     @ le_bytes 2 (1 * (bits_per_sample p div 8)) @ le_bytes 2 (bits_per_sample p)
     @ bytes_of ''data'' @ le_bytes 4 (int n)"

section \<open>Chunk collector: \<open>generate_podcast_audio\<close>\<close>

text \<open>
  The function shows its progress on tqdm bars. A bar is described by its \<open>total\<close>
  (\<open>None\<close> when the bar is created without one); no bar of this function is built on an
  iterable. tqdm's \<open>__bool__\<close> answers \<open>total > 0\<close> for a bar with a total and raises
  \<open>TypeError\<close> for a bar that has neither total nor iterable. \<open>truth\<close> is the truth test
  of a variable that holds \<open>None\<close> or a bar.
\<close>

datatype tqdm = Tqdm "nat option"

fun tqdm_bool :: "tqdm \<Rightarrow> error + bool" where
  "tqdm_bool (Tqdm (Some t)) = Inr (0 < t)"
| "tqdm_bool (Tqdm None) = Inl TypeError"

fun truth :: "tqdm option \<Rightarrow> error + bool" where
  "truth None = Inr False"
| "truth (Some bar) = tqdm_bool bar"

text \<open>
  The streaming text-to-speech call is an external collaborator, given as a function from
  the attempt number to what happens in the \<open>try\<close> body of that attempt:
  \<^item> \<open>BeforeBar msg\<close>: a statement before \<open>progress_bar = tqdm(...)\<close> is assigned raises
    an exception whose \<open>str\<close> is \<open>msg\<close>; no stream is opened;
  \<^item> \<open>Streamed cs end\<close>: the bar is created (without total), the stream yields the
    elements \<open>cs\<close> and then is exhausted (\<open>end = None\<close>) or raises an exception whose
    \<open>str\<close> is \<open>msg\<close> (\<open>end = Some msg\<close>), which is what a transport error does.
  An element of the stream is
  \<^item> \<open>NoParts\<close>: candidates, content or parts is \<open>None\<close> (the loop continues);
  \<^item> \<open>InlineData d m\<close>: the first part carries inline data with payload \<open>d\<close> and MIME
    type \<open>m\<close> (which the SDK may leave \<open>None\<close>);
  \<^item> \<open>TextOnly\<close>: the first part carries no inline data (its text is only displayed).
  An exception raised by the loop body itself while it reads an element ends the attempt
  in the same handler and is an attempt ending in \<open>Some msg\<close>. The animation threads and
  the drawing of the bars are left out. The events kept are the start of an attempt, the
  \<open>time.sleep(RETRY_DELAY)\<close> before a retry and the call of the WAV encoder.
  \<open>mimetypes.guess_extension\<close> is a parameter.
\<close>

definition MAX_RETRIES :: nat where
  "MAX_RETRIES = 3"

definition RETRY_DELAY :: nat where
  "RETRY_DELAY = 2"

datatype chunk = NoParts | InlineData bytes "string option" | TextOnly

datatype attempt = BeforeBar string | Streamed "chunk list" "string option"

datatype event = AttemptStarted nat | Slept nat | WavEncoderCalled

record collector =
  all_audio_chunks :: "bytes list"
  mime_type :: "string option"

text \<open>The body of \<open>for chunk in ...generate_content_stream(...)\<close>.\<close>

fun process_chunk :: "collector \<Rightarrow> chunk \<Rightarrow> collector" where
  "process_chunk s NoParts = s"
| "process_chunk s (InlineData d m) =
     s\<lparr>all_audio_chunks := all_audio_chunks s @ [d],
       mime_type := (case mime_type s of None \<Rightarrow> m | Some t \<Rightarrow> Some t)\<rparr>"
| "process_chunk s TextOnly = s"

text \<open>Python's \<open>str\<close> of a non-negative integer, for the f-string of the error message.\<close>

fun str_digits :: "nat \<Rightarrow> nat \<Rightarrow> string" where
  "str_digits 0 n = []"
| "str_digits (Suc fuel) n =
     (if n < 10 then [''0123456789'' ! n]
      else str_digits fuel (n div 10) @ [''0123456789'' ! (n mod 10)])"

definition str_nat :: "nat \<Rightarrow> string" where
  "str_nat n = str_digits (Suc n) n"

text \<open>What the \<open>try\<close> body of an attempt leaves behind: the bar, the buffer, the failure.\<close>

fun bar_after :: "attempt \<Rightarrow> tqdm option \<Rightarrow> tqdm option" where
  "bar_after (BeforeBar msg) progress_bar = progress_bar"
| "bar_after (Streamed cs end) progress_bar = Some (Tqdm None)"

fun buffer_after :: "attempt \<Rightarrow> collector \<Rightarrow> collector" where
  "buffer_after (BeforeBar msg) s = s"
| "buffer_after (Streamed cs end) s = foldl process_chunk s cs"

fun failure_of :: "attempt \<Rightarrow> string option" where
  "failure_of (BeforeBar msg) = Some msg"
| "failure_of (Streamed cs end) = end"

text \<open>
  \<open>for attempt in range(MAX_RETRIES)\<close> with its \<open>try\<close>/\<open>except Exception\<close>: the list is
  the attempt numbers still to run. The buffer and \<open>progress_bar\<close> are created before the
  loop and are the ones every attempt works on. The handler first evaluates
  \<open>if progress_bar:\<close> and then \<open>if 'init_pbar' in locals() and init_pbar:\<close>, where
  \<open>init_pbar\<close> is the bar created with \<open>total=100\<close>; an exception raised by either test
  leaves the handler, the loop and the function.
\<close>

fun retry_loop ::
  "(nat \<Rightarrow> attempt) \<Rightarrow> nat list \<Rightarrow> collector \<Rightarrow> tqdm option \<Rightarrow> event list
   \<Rightarrow> (error + collector) \<times> event list"
where
  "retry_loop stream [] s progress_bar ev = (Inr s, ev)"
| "retry_loop stream (attempt # rest) s progress_bar ev =
     (let ev' = ev @ [AttemptStarted attempt];
          bar = bar_after (stream attempt) progress_bar;
          s' = buffer_after (stream attempt) s
      in case failure_of (stream attempt) of
           None \<Rightarrow> (Inr s', ev')
         | Some error_message \<Rightarrow>
             (case truth bar of
                Inl e \<Rightarrow> (Inl e, ev')
              | Inr closes_bar \<Rightarrow>
                  (case truth (Some (Tqdm (Some 100))) of
                     Inl e \<Rightarrow> (Inl e, ev')
                   | Inr closes_init \<Rightarrow>
                       if attempt < MAX_RETRIES - 1
                       then retry_loop stream rest s' bar (ev' @ [Slept RETRY_DELAY])
                       else (Inl (PyException (''Failed to generate audio after ''
                                    @ str_nat MAX_RETRIES @ '' attempts: '' @ error_message)),
                             ev'))))"

text \<open>\<open>combined_audio = b''; for chunk in all_audio_chunks: combined_audio += chunk\<close>.\<close>

definition combine_chunks :: "bytes list \<Rightarrow> bytes" where
  "combine_chunks chunks = foldl (@) [] chunks"

definition default_mime :: string where
  "default_mime = ''audio/L16;rate=24000''"

text \<open>
  \<open>mime_type or "audio/L16;rate=24000"\<close>: \<open>None\<close> and the empty string are false in
  Python, as in \<open>guess_extension(mime_type) if mime_type else None\<close>.
\<close>

definition mime_or_default :: "string option \<Rightarrow> string" where
  "mime_or_default m = (case m of None \<Rightarrow> default_mime | Some t \<Rightarrow> if t = [] then default_mime else t)"

text \<open>
  The function from the creation of the buffer on. Its result is the extension and the
  bytes of the audio file it saves (file naming and writing are external), with the events.
\<close>

definition generate_podcast_audio ::
  "(string \<Rightarrow> string option) \<Rightarrow> (nat \<Rightarrow> attempt) \<Rightarrow> (error + string \<times> bytes) \<times> event list"
where
  "generate_podcast_audio guess_extension stream =
     (case retry_loop stream [0..<MAX_RETRIES] \<lparr>all_audio_chunks = [], mime_type = None\<rparr> None [] of
        (Inl e, ev) \<Rightarrow> (Inl e, ev)
      | (Inr s, ev) \<Rightarrow>
          if all_audio_chunks s = []
          then (Inl (PyException ''No audio was generated. Please try again with a different topic.''), ev)
          else
            (let combined_audio = combine_chunks (all_audio_chunks s);
                 file_extension =
                   (case mime_type s of
                      None \<Rightarrow> None
                    | Some t \<Rightarrow> if t = [] then None else guess_extension t)
             in case file_extension of
                  Some ext \<Rightarrow> (Inr (ext, combined_audio), ev)
                | None \<Rightarrow>
                    (case convert_to_wav combined_audio (mime_or_default (mime_type s)) of
                       Inl e \<Rightarrow> (Inl e, ev @ [WavEncoderCalled])
                     | Inr wav \<Rightarrow> (Inr (''.wav'', wav), ev @ [WavEncoderCalled]))))"

text \<open>
  For stating properties of a run: the payloads of the inline-data elements of a stream in
  arrival order, the MIME type of the first inline-data element that carries one, the
  events of the failed and retried attempts \<open>a\<close> to \<open>k - 1\<close>, and these followed by the
  start of attempt \<open>k\<close>.
\<close>

fun payloads :: "chunk list \<Rightarrow> bytes list" where
  "payloads [] = []"
| "payloads (InlineData d m # cs) = d # payloads cs"
| "payloads (NoParts # cs) = payloads cs"
| "payloads (TextOnly # cs) = payloads cs"

fun first_mime :: "chunk list \<Rightarrow> string option" where
  "first_mime [] = None"
| "first_mime (InlineData d (Some t) # cs) = Some t"
| "first_mime (InlineData d None # cs) = first_mime cs"
| "first_mime (NoParts # cs) = first_mime cs"
| "first_mime (TextOnly # cs) = first_mime cs"

definition retries :: "nat \<Rightarrow> nat \<Rightarrow> event list" where
  "retries a k = concat (map (\<lambda>j. [AttemptStarted j, Slept RETRY_DELAY]) [a..<k])"

definition retry_trace :: "nat \<Rightarrow> nat \<Rightarrow> event list" where
  "retry_trace a k = retries a k @ [AttemptStarted k]"

section \<open>Properties of the MIME parameter parser\<close>

lemma int_of_str_error: "int_of_str s = Inl e \<Longrightarrow> e = ValueError"
  by (auto simp: int_of_str_def Let_def split: list.splits option.splits if_splits)

lemma getitem_error: "getitem xs i = Inl e \<Longrightarrow> e = IndexError"
  by (auto simp: getitem_def split: if_splits)

lemma rate_of_param_caught: "rate_of_param p = Inl e \<Longrightarrow> caught e"
  by (auto simp: rate_of_param_def caught_def split: sum.splits dest: int_of_str_error getitem_error)

lemma bits_of_param_caught: "bits_of_param p = Inl e \<Longrightarrow> caught e"
  by (auto simp: bits_of_param_def caught_def split: sum.splits dest: int_of_str_error getitem_error)

lemma parse_param_total: "\<exists>acc'. parse_param acc raw = Inr acc'"
  by (auto simp: parse_param_def Let_def split: sum.splits dest: rate_of_param_caught bits_of_param_caught)

lemma parse_params_total: "\<exists>acc'. parse_params acc ps = Inr acc'"
proof (induction ps arbitrary: acc)
  case Nil
  show ?case by simp
next
  case (Cons p ps)
  obtain a where a: "parse_param acc p = Inr a"
    using parse_param_total by blast
  with Cons.IH [of a] show ?case by simp
qed

lemma lower_char_eq_sign: "lower_char c = CHR ''='' \<Longrightarrow> c = CHR ''=''"
proof (rule ccontr)
  assume l: "lower_char c = CHR ''=''" and n: "c \<noteq> CHR ''=''"
  let ?n = "of_char c :: nat"
  from l n have up: "(65 \<le> ?n \<and> ?n \<le> 90) \<or> (192 \<le> ?n \<and> ?n \<le> 222 \<and> ?n \<noteq> 215)"
    and eq: "char_of (?n + 32) = CHR ''=''"
    by (auto simp: lower_char_def ord_def Let_def split: if_splits)
  from eq have "of_char (char_of (?n + 32) :: char) = (of_char (CHR ''='') :: nat)"
    by simp
  then have "(?n + 32) mod 256 = 61"
    by simp
  with up show False
    by auto
qed

lemma lower_char_not_eq:
  "lower_char c = CHR ''r'' \<or> lower_char c = CHR ''a'' \<or> lower_char c = CHR ''t'' \<or> lower_char c = CHR ''e''
   \<Longrightarrow> c \<noteq> CHR ''=''"
  by (auto simp: lower_char_def ord_def)

lemma startswith_Cons:
  "startswith s (x # xs) = (case s of [] \<Rightarrow> False | y # ys \<Rightarrow> y = x \<and> startswith ys xs)"
  by (cases s) (auto simp: startswith_def)

lemma rate_prefix_shape:
  assumes "startswith (lower p) ''rate=''"
  shows "\<exists>a b c d rest. p = a # b # c # d # CHR ''='' # rest
           \<and> a \<noteq> CHR ''='' \<and> b \<noteq> CHR ''='' \<and> c \<noteq> CHR ''='' \<and> d \<noteq> CHR ''=''"
proof -
  from assms obtain a b c d e rest where p: "p = a # b # c # d # e # rest"
    and l: "lower_char a = CHR ''r''" "lower_char b = CHR ''a''" "lower_char c = CHR ''t''"
      "lower_char d = CHR ''e''" "lower_char e = CHR ''=''"
    by (auto simp: lower_def startswith_Cons map_eq_Cons_conv split: list.splits)
  from l have "e = CHR ''=''" "a \<noteq> CHR ''=''" "b \<noteq> CHR ''=''" "c \<noteq> CHR ''=''" "d \<noteq> CHR ''=''"
    using lower_char_eq_sign lower_char_not_eq by blast+
  with p show ?thesis by auto
qed

lemma rate_of_param_drop:
  assumes "startswith (lower p) ''rate=''"
  shows "rate_of_param p = int_of_str (drop 5 p)"
proof -
  from rate_prefix_shape [OF assms] obtain a b c d rest
    where "p = a # b # c # d # CHR ''='' # rest"
      and "a \<noteq> CHR ''=''" "b \<noteq> CHR ''=''" "c \<noteq> CHR ''=''" "d \<noteq> CHR ''=''"
    by blast
  then show ?thesis
    by (simp add: rate_of_param_def split1_def getitem_def)
qed

lemma audio_prefix_shape:
  "startswith p ''audio/L'' \<Longrightarrow> \<exists>rest. p = ''audio/L'' @ rest"
  by (auto simp: startswith_Cons split: list.splits)

lemma bits_of_param_drop:
  assumes "startswith p ''audio/L''"
  shows "bits_of_param p = int_of_str (drop 7 p)"
proof -
  from audio_prefix_shape [OF assms] obtain rest where p: "p = ''audio/L'' @ rest"
    by blast
  show ?thesis
    unfolding p by (simp add: bits_of_param_def split1_def getitem_def)
qed

lemma startswith_rate_take:
  "startswith (lower p) ''rate='' = (lower (take 5 p) = ''rate='')"
proof -
  have "length ''rate='' = 5" by simp
  then show ?thesis
    by (simp only: startswith_def lower_def take_map)
qed

lemma startswith_audio_take:
  "startswith p ''audio/L'' = (take 7 p = ''audio/L'')"
proof -
  have "length ''audio/L'' = 7" by simp
  then show ?thesis
    by (simp only: startswith_def)
qed

lemma rate_prefix_not_audio:
  assumes "startswith (lower p) ''rate=''"
  shows "\<not> startswith p ''audio/L''"
proof
  assume "startswith p ''audio/L''"
  then obtain r where p: "p = CHR ''a'' # r"
    by (auto simp: startswith_Cons split: list.splits)
  from assms obtain a r' where "p = a # r'" and "lower_char a = CHR ''r''"
    by (auto simp: lower_def startswith_Cons split: list.splits)
  with p have "lower_char (CHR ''a'') = CHR ''r''"
    by simp
  then show False
    by (simp add: lower_char_def ord_def)
qed

lemma parse_param_spec: "parse_param acc raw = Inr (spec_segment acc raw)"
proof (cases "startswith (lower (strip raw)) ''rate=''")
  case True
  note r = True [unfolded startswith_rate_take]
  note na = rate_prefix_not_audio [OF True, unfolded startswith_audio_take]
  show ?thesis
  proof (cases "int_of_str (drop 5 (strip raw))")
    case (Inl e)
    then have "caught e"
      using int_of_str_error [of "drop 5 (strip raw)" e] by (simp add: caught_def)
    with Inl True r na show ?thesis
      by (simp add: parse_param_def spec_segment_def spec_rate_field_def spec_bits_field_def
          Let_def rate_of_param_drop)
  next
    case (Inr v)
    with True r show ?thesis
      by (simp add: parse_param_def spec_segment_def spec_rate_field_def Let_def rate_of_param_drop)
  qed
next
  case False
  note nr = False [unfolded startswith_rate_take]
  show ?thesis
  proof (cases "startswith (strip raw) ''audio/L''")
    case True
    note a = True [unfolded startswith_audio_take]
    show ?thesis
    proof (cases "int_of_str (drop 7 (strip raw))")
      case (Inl e)
      then have "caught e"
        using int_of_str_error [of "drop 7 (strip raw)" e] by (simp add: caught_def)
      with Inl True False a nr show ?thesis
        by (simp add: parse_param_def spec_segment_def spec_rate_field_def spec_bits_field_def
            Let_def bits_of_param_drop)
    next
      case (Inr v)
      with True False a nr show ?thesis
        by (simp add: parse_param_def spec_segment_def spec_rate_field_def spec_bits_field_def
            Let_def bits_of_param_drop)
    qed
  next
    case na: False
    note a = na [unfolded startswith_audio_take]
    from False na a nr show ?thesis
      by (simp add: parse_param_def spec_segment_def spec_rate_field_def spec_bits_field_def Let_def)
  qed
qed

lemma parse_params_spec: "parse_params acc ps = Inr (foldl spec_segment acc ps)"
  by (induction ps arbitrary: acc) (simp_all add: parse_param_spec)

lemmas builtin_defs = strip_def isspace_def ord_def lower_def lower_char_def startswith_def
  getitem_def split1_def int_of_str_def int_space_def digit_val_def int_max_str_digits_def

lemmas param_defs = parse_param_def bits_of_param_def rate_of_param_def caught_def

lemma parse_param_audio_L16: "parse_param acc ''audio/L16'' = Inr (acc\<lparr>bits_per_sample := 16\<rparr>)"
  by (simp add: param_defs builtin_defs)

lemma parse_param_audio_L24: "parse_param acc ''audio/L24'' = Inr (acc\<lparr>bits_per_sample := 24\<rparr>)"
  by (simp add: param_defs builtin_defs)

lemma parse_param_rate_24000: "parse_param acc ''rate=24000'' = Inr (acc\<lparr>rate := 24000\<rparr>)"
  by (simp add: param_defs builtin_defs)

lemma parse_param_rate_48000: "parse_param acc ''rate=48000'' = Inr (acc\<lparr>rate := 48000\<rparr>)"
  by (simp add: param_defs builtin_defs)

lemma parse_param_empty: "parse_param acc [] = Inr acc"
  by (simp add: param_defs builtin_defs)

lemma parse_param_garbage: "parse_param acc ''garbage'' = Inr acc"
  by (simp add: param_defs builtin_defs)

lemma parse_param_nonsense: "parse_param acc ''nonsense=xyz'' = Inr acc"
  by (simp add: param_defs builtin_defs)

lemma parse_param_notanumber: "parse_param acc ''rate=notanumber'' = Inr acc"
  by (simp add: param_defs builtin_defs)

lemma parse_default_mime:
  "parse_audio_mime_type ''audio/L16;rate=24000'' = Inr \<lparr>bits_per_sample = 16, rate = 24000\<rparr>"
  by (simp add: parse_audio_mime_type_def parse_param_audio_L16 parse_param_rate_24000)

lemma parse_L24_48000:
  "parse_audio_mime_type ''audio/L24;rate=48000'' = Inr \<lparr>bits_per_sample = 24, rate = 48000\<rparr>"
  by (simp add: parse_audio_mime_type_def parse_param_audio_L24 parse_param_rate_48000)

lemma parse_empty:
  "parse_audio_mime_type [] = Inr \<lparr>bits_per_sample = 16, rate = 24000\<rparr>"
  by (simp add: parse_audio_mime_type_def parse_param_empty)

lemma parse_garbage:
  "parse_audio_mime_type ''garbage;nonsense=xyz'' = Inr \<lparr>bits_per_sample = 16, rate = 24000\<rparr>"
  by (simp add: parse_audio_mime_type_def parse_param_garbage parse_param_nonsense)

lemma parse_notanumber:
  "parse_audio_mime_type ''rate=notanumber'' = Inr \<lparr>bits_per_sample = 16, rate = 24000\<rparr>"
  by (simp add: parse_audio_mime_type_def parse_param_notanumber)

lemma rate_spec_segment:
  "rate (spec_segment acc raw) =
     (case spec_rate_field (strip raw) of Some v \<Rightarrow> v | None \<Rightarrow> rate acc)"
  by (simp add: spec_segment_def Let_def split: option.splits)

lemma bits_spec_segment:
  "bits_per_sample (spec_segment acc raw) =
     (case spec_rate_field (strip raw) of
        Some v \<Rightarrow> bits_per_sample acc
      | None \<Rightarrow> (case spec_bits_field (strip raw) of Some b \<Rightarrow> b | None \<Rightarrow> bits_per_sample acc))"
  by (simp add: spec_segment_def Let_def split: option.splits)

lemma rate_foldl_spec_segment:
  "rate (foldl spec_segment acc segs) = rate acc
   \<or> (\<exists>seg \<in> set segs. spec_rate_field (strip seg) = Some (rate (foldl spec_segment acc segs)))"
proof (induction segs arbitrary: acc)
  case Nil
  show ?case by simp
next
  case (Cons x xs)
  from Cons.IH [of "spec_segment acc x"] show ?case
    by (auto simp: rate_spec_segment split: option.splits)
qed

lemma bits_foldl_spec_segment:
  "bits_per_sample (foldl spec_segment acc segs) = bits_per_sample acc
   \<or> (\<exists>seg \<in> set segs. spec_bits_field (strip seg) = Some (bits_per_sample (foldl spec_segment acc segs)))"
proof (induction segs arbitrary: acc)
  case Nil
  show ?case by simp
next
  case (Cons x xs)
  from Cons.IH [of "spec_segment acc x"] show ?case
    by (auto simp: bits_spec_segment split: option.splits)
qed

lemma parse_audio_mime_type_spec:
  "parse_audio_mime_type s =
     Inr (foldl spec_segment \<lparr>bits_per_sample = 16, rate = 24000\<rparr> (split_all (CHR '';'') s))"
  by (simp add: parse_audio_mime_type_def parse_params_spec)

text \<open>
  Claim C5. \<open>parse_audio_mime_type\<close> is total: on every input string it returns
  parameters and raises nothing, because the only errors its two \<open>try\<close> bodies can raise
  are the ones their \<open>except\<close> clauses catch. When no segment is a well-formed rate field
  the rate is the default 24000, and when no segment is a well-formed bit-depth field the
  bit depth is the default 16; a value other than the default comes from a well-formed
  field of the input.
\<close>

theorem parse_audio_mime_type_total:
  "\<exists>p. parse_audio_mime_type s = Inr p
     \<and> ((\<forall>seg \<in> set (split_all (CHR '';'') s). spec_rate_field (strip seg) = None) \<longrightarrow> rate p = 24000)
     \<and> ((\<forall>seg \<in> set (split_all (CHR '';'') s). spec_bits_field (strip seg) = None) \<longrightarrow> bits_per_sample p = 16)
     \<and> (rate p \<noteq> 24000 \<longrightarrow> (\<exists>seg \<in> set (split_all (CHR '';'') s). spec_rate_field (strip seg) = Some (rate p)))
     \<and> (bits_per_sample p \<noteq> 16 \<longrightarrow>
          (\<exists>seg \<in> set (split_all (CHR '';'') s). spec_bits_field (strip seg) = Some (bits_per_sample p)))"
proof -
  let ?segs = "split_all (CHR '';'') s"
  let ?d = "\<lparr>bits_per_sample = 16, rate = 24000\<rparr>"
  obtain p where p: "parse_audio_mime_type s = Inr p"
    using parse_params_total [of ?d ?segs] by (auto simp: parse_audio_mime_type_def)
  then have q: "p = foldl spec_segment ?d ?segs"
    by (simp add: parse_audio_mime_type_spec)
  have r: "rate p = 24000 \<or> (\<exists>seg \<in> set ?segs. spec_rate_field (strip seg) = Some (rate p))"
    using rate_foldl_spec_segment [of ?d ?segs] by (simp add: q)
  have b: "bits_per_sample p = 16
      \<or> (\<exists>seg \<in> set ?segs. spec_bits_field (strip seg) = Some (bits_per_sample p))"
    using bits_foldl_spec_segment [of ?d ?segs] by (simp add: q)
  from r have r1: "(\<forall>seg \<in> set ?segs. spec_rate_field (strip seg) = None) \<longrightarrow> rate p = 24000"
    by auto
  from b have b1: "(\<forall>seg \<in> set ?segs. spec_bits_field (strip seg) = None) \<longrightarrow> bits_per_sample p = 16"
    by auto
  from p r b r1 b1 show ?thesis
    by blast
qed

lemma spec_fields_L24:
  "spec_rate_field (strip ''audio/L24'') = None" "spec_bits_field (strip ''rate=48000'') = None"
  by (simp_all add: spec_rate_field_def spec_bits_field_def builtin_defs)

lemma spec_fields_garbage:
  "spec_rate_field (strip ''garbage'') = None" "spec_bits_field (strip ''garbage'') = None"
  "spec_rate_field (strip ''rate=notanumber'') = None" "spec_bits_field (strip ''rate=notanumber'') = None"
  by (simp_all add: spec_rate_field_def spec_bits_field_def builtin_defs)

text \<open>
  The defaults are kept on \<open>garbage;rate=notanumber\<close>, and both are overridden by the
  well-formed fields of \<open>audio/L24;rate=48000\<close>.
\<close>

theorem parse_audio_mime_type_total_witness:
  "spec_rate_field (strip ''garbage'') = None \<and> spec_bits_field (strip ''garbage'') = None
   \<and> spec_rate_field (strip ''rate=notanumber'') = None
   \<and> spec_bits_field (strip ''rate=notanumber'') = None
   \<and> parse_audio_mime_type ''garbage;rate=notanumber'' = Inr \<lparr>bits_per_sample = 16, rate = 24000\<rparr>
   \<and> parse_audio_mime_type ''audio/L24;rate=48000'' = Inr \<lparr>bits_per_sample = 24, rate = 48000\<rparr>
   \<and> spec_rate_field (strip ''rate=48000'') = Some 48000
   \<and> spec_bits_field (strip ''audio/L24'') = Some 24"
proof -
  have h: "\<forall>seg \<in> set (split_all (CHR '';'') ''garbage;rate=notanumber''). spec_rate_field (strip seg) = None"
    "\<forall>seg \<in> set (split_all (CHR '';'') ''garbage;rate=notanumber''). spec_bits_field (strip seg) = None"
    by (simp_all add: spec_fields_garbage)
  from parse_audio_mime_type_total [of "''garbage;rate=notanumber''"] h
  have a: "parse_audio_mime_type ''garbage;rate=notanumber'' = Inr \<lparr>bits_per_sample = 16, rate = 24000\<rparr>"
    by auto
  from parse_audio_mime_type_total [of "''audio/L24;rate=48000''"]
  have b: "spec_rate_field (strip ''rate=48000'') = Some 48000"
    "spec_bits_field (strip ''audio/L24'') = Some 24"
    by (auto simp: parse_L24_48000 spec_fields_garbage spec_fields_L24)
  from a b show ?thesis
    by (simp add: spec_fields_garbage parse_L24_48000)
qed

lemma char_eq_ord: "(c = d) = (ord c = ord d)"
  by (simp add: ord_def)

lemma ord_lower_char:
  "ord (lower_char c) =
     (if (65 \<le> ord c \<and> ord c \<le> 90) \<or> (192 \<le> ord c \<and> ord c \<le> 222 \<and> ord c \<noteq> 215)
      then ord c + 32 else ord c)"
  by (auto simp: lower_char_def ord_def Let_def)

lemma lower_char_rate:
  "lower_char c = CHR ''r'' \<longleftrightarrow> c = CHR ''r'' \<or> c = CHR ''R''"
  "lower_char c = CHR ''a'' \<longleftrightarrow> c = CHR ''a'' \<or> c = CHR ''A''"
  "lower_char c = CHR ''t'' \<longleftrightarrow> c = CHR ''t'' \<or> c = CHR ''T''"
  "lower_char c = CHR ''e'' \<longleftrightarrow> c = CHR ''e'' \<or> c = CHR ''E''"
  "lower_char c = CHR ''='' \<longleftrightarrow> c = CHR ''=''"
  unfolding char_eq_ord ord_lower_char by (auto simp: ord_def)

lemma isspace_spec: "isspace c = spec_whitespace c"
  by (auto simp: isspace_def spec_whitespace_def ord_def Let_def)

lemma dropWhile_isspace: "dropWhile isspace s = spec_trim_left s"
  by (induction s) (simp_all add: isspace_spec)

lemma strip_spec: "strip s = spec_trim s"
  by (simp add: strip_def spec_trim_def dropWhile_isspace)

lemma startswith_Nil: "startswith s []"
  by (simp add: startswith_def)

lemma startswith_rate_spec:
  "startswith (lower seg) ''rate='' = (spec_rate_text seg \<noteq> None)"
  by (cases seg rule: spec_rate_text.cases)
    (simp_all add: lower_def startswith_Cons startswith_Nil lower_char_rate)

lemma spec_rate_text_drop: "spec_rate_text seg = Some v \<Longrightarrow> v = drop 5 seg"
  by (cases seg rule: spec_rate_text.cases) (simp_all split: if_splits)

lemma parse_param_step: "parse_param acc raw = Inr (spec_step acc raw)"
proof -
  let ?seg = "strip raw"
  have a: "spec_segment acc raw = spec_step acc raw"
  proof (cases "spec_rate_text ?seg")
    case None
    then have "lower (take 5 ?seg) \<noteq> ''rate=''"
      using startswith_rate_spec [of ?seg] by (simp add: startswith_rate_take)
    with None show ?thesis
      by (simp add: spec_segment_def spec_step_def spec_rate_field_def spec_bits_field_def
          spec_bits_text_def strip_spec [symmetric] split: sum.splits)
  next
    case (Some v)
    then have "lower (take 5 ?seg) = ''rate=''" and "v = drop 5 ?seg"
      using startswith_rate_spec [of ?seg] spec_rate_text_drop [of ?seg v]
      by (simp_all add: startswith_rate_take)
    with Some show ?thesis
      using rate_prefix_not_audio [of ?seg]
      by (simp add: spec_segment_def spec_step_def spec_rate_field_def spec_bits_field_def
          startswith_rate_take startswith_audio_take strip_spec [symmetric] split: sum.splits)
  qed
  show ?thesis
    by (simp add: parse_param_spec a)
qed

lemma parse_params_step: "parse_params acc ps = Inr (foldl spec_step acc ps)"
  by (induction ps arbitrary: acc) (simp_all add: parse_param_step)

lemma split_all_not_Nil: "split_all c s \<noteq> []"
  by (induction s) (simp_all split: list.splits)

lemma join_with_Cons_char:
  assumes "xs \<noteq> []"
  shows "join_with c ((a # hd xs) # tl xs) = a # join_with c xs"
proof -
  from assms obtain y ys where xs: "xs = y # ys"
    by (cases xs) auto
  show ?thesis
    unfolding xs by (cases ys) simp_all
qed

lemma join_split_all: "join_with c (split_all c s) = s"
proof (induction s)
  case Nil
  show ?case by simp
next
  case (Cons a s)
  obtain x xs where x: "split_all c s = x # xs"
    using split_all_not_Nil [of c s] by (cases "split_all c s") auto
  show ?case
  proof (cases "a = c")
    case True
    with Cons x show ?thesis by simp
  next
    case False
    with Cons x join_with_Cons_char [of "x # xs" c a] show ?thesis by simp
  qed
qed

lemma split_all_no_separator: "list_all (\<lambda>seg. c \<notin> set seg) (split_all c s)"
  by (induction s) (auto split: list.splits)


lemmas spec_step_defs = spec_step_def spec_trim_def spec_whitespace_def spec_bits_text_def
  int_of_str_def int_space_def digit_val_def int_max_str_digits_def startswith_def ord_def

lemma spec_step_spaced_rate: "spec_step acc '' rate=48000'' = acc\<lparr>rate := 48000\<rparr>"
  by (simp add: spec_step_defs)

lemma spec_step_upper_rate: "spec_step acc ''RATE=48000'' = acc\<lparr>rate := 48000\<rparr>"
  by (simp add: spec_step_defs)

lemma spec_step_mixed_rate: "spec_step acc '' Rate=8000 '' = acc\<lparr>rate := 8000\<rparr>"
  by (simp add: spec_step_defs)

lemma spec_step_spaced_bits: "spec_step acc '' audio/L8 '' = acc\<lparr>bits_per_sample := 8\<rparr>"
  by (simp add: spec_step_defs)

lemma spec_step_upper_audio: "spec_step acc ''AUDIO/L8'' = acc"
  by (simp add: spec_step_defs)

lemma spec_step_bad_rate: "spec_step acc ''rate=bad'' = acc"
  by (simp add: spec_step_defs)

lemma parse_param_spaced_rate: "parse_param acc '' rate=48000'' = Inr (acc\<lparr>rate := 48000\<rparr>)"
  unfolding parse_param_step spec_step_spaced_rate ..

lemma parse_param_upper_rate: "parse_param acc ''RATE=48000'' = Inr (acc\<lparr>rate := 48000\<rparr>)"
  unfolding parse_param_step spec_step_upper_rate ..

lemma parse_param_mixed_rate: "parse_param acc '' Rate=8000 '' = Inr (acc\<lparr>rate := 8000\<rparr>)"
  unfolding parse_param_step spec_step_mixed_rate ..

lemma parse_param_spaced_bits: "parse_param acc '' audio/L8 '' = Inr (acc\<lparr>bits_per_sample := 8\<rparr>)"
  unfolding parse_param_step spec_step_spaced_bits ..

lemma parse_param_upper_audio: "parse_param acc ''AUDIO/L8'' = Inr acc"
  unfolding parse_param_step spec_step_upper_audio ..

lemma parse_param_bad_rate: "parse_param acc ''rate=bad'' = Inr acc"
  unfolding parse_param_step spec_step_bad_rate ..

lemma parse_spaced_rate:
  "parse_audio_mime_type ''audio/L16; rate=48000'' = Inr \<lparr>bits_per_sample = 16, rate = 48000\<rparr>"
  by (simp add: parse_audio_mime_type_def parse_param_audio_L16 parse_param_spaced_rate)

lemma parse_upper_rate:
  "parse_audio_mime_type ''audio/L16;RATE=48000'' = Inr \<lparr>bits_per_sample = 16, rate = 48000\<rparr>"
  by (simp add: parse_audio_mime_type_def parse_param_audio_L16 parse_param_upper_rate)

lemma parse_mixed:
  "parse_audio_mime_type '' Rate=8000 ; audio/L8 '' = Inr \<lparr>bits_per_sample = 8, rate = 8000\<rparr>"
  by (simp add: parse_audio_mime_type_def parse_param_mixed_rate parse_param_spaced_bits)

lemma parse_upper_audio:
  "parse_audio_mime_type ''AUDIO/L8'' = Inr \<lparr>bits_per_sample = 16, rate = 24000\<rparr>"
  by (simp add: parse_audio_mime_type_def parse_param_upper_audio)

lemma parse_rate_then_bad:
  "parse_audio_mime_type ''rate=48000;rate=bad'' = Inr \<lparr>bits_per_sample = 16, rate = 48000\<rparr>"
  by (simp add: parse_audio_mime_type_def parse_param_rate_48000 parse_param_bad_rate)

text \<open>
  Claim C6. The parser splits its input on semicolons: the segments contain no semicolon
  and joined by semicolons they give the input back. It treats every segment, trimmed of
  the whitespace around it, as the specification says: a \<open>rate=<value>\<close> segment, the key
  in any mix of cases, overrides the rate when the value is an integer and is skipped
  otherwise; a segment starting with the literal \<open>audio/L\<close> overrides the bit depth when
  the text after the \<open>L\<close> is an integer; any other segment is ignored. The five inputs
  of the specification give the five results it lists, and so do inputs with blanks
  around a segment, with a capital key, with a capital \<open>AUDIO/L\<close> (not the literal
  prefix, so ignored) and with a malformed rate after a good one (the good one stays).
\<close>

theorem parse_audio_mime_type_segments:
  "parse_audio_mime_type s =
     Inr (foldl spec_step \<lparr>bits_per_sample = 16, rate = 24000\<rparr> (split_all (CHR '';'') s))
   \<and> join_with (CHR '';'') (split_all (CHR '';'') s) = s
   \<and> list_all (\<lambda>seg. CHR '';'' \<notin> set seg) (split_all (CHR '';'') s)
   \<and> parse_audio_mime_type ''audio/L16;rate=24000'' = Inr \<lparr>bits_per_sample = 16, rate = 24000\<rparr>
   \<and> parse_audio_mime_type ''audio/L24;rate=48000'' = Inr \<lparr>bits_per_sample = 24, rate = 48000\<rparr>
   \<and> parse_audio_mime_type [] = Inr \<lparr>bits_per_sample = 16, rate = 24000\<rparr>
   \<and> parse_audio_mime_type ''garbage;nonsense=xyz'' = Inr \<lparr>bits_per_sample = 16, rate = 24000\<rparr>
   \<and> parse_audio_mime_type ''rate=notanumber'' = Inr \<lparr>bits_per_sample = 16, rate = 24000\<rparr>
   \<and> parse_audio_mime_type ''audio/L16; rate=48000'' = Inr \<lparr>bits_per_sample = 16, rate = 48000\<rparr>
   \<and> parse_audio_mime_type ''audio/L16;RATE=48000'' = Inr \<lparr>bits_per_sample = 16, rate = 48000\<rparr>
   \<and> parse_audio_mime_type '' Rate=8000 ; audio/L8 '' = Inr \<lparr>bits_per_sample = 8, rate = 8000\<rparr>
   \<and> parse_audio_mime_type ''AUDIO/L8'' = Inr \<lparr>bits_per_sample = 16, rate = 24000\<rparr>
   \<and> parse_audio_mime_type ''rate=48000;rate=bad'' = Inr \<lparr>bits_per_sample = 16, rate = 48000\<rparr>"
proof -
  have "parse_audio_mime_type s =
     Inr (foldl spec_step \<lparr>bits_per_sample = 16, rate = 24000\<rparr> (split_all (CHR '';'') s))"
    by (simp add: parse_audio_mime_type_def parse_params_step)
  then show ?thesis
    using join_split_all [of "CHR '';''" s] split_all_no_separator [of "CHR '';''" s]
      parse_default_mime parse_L24_48000 parse_empty parse_garbage parse_notanumber
      parse_spaced_rate parse_upper_rate parse_mixed parse_upper_audio parse_rate_then_bad
    by simp
qed

section \<open>Properties of the WAV encoder\<close>

lemma length_le_bytes: "length (le_bytes n v) = n"
  by (induction n arbitrary: v) simp_all

lemma le_value_le_bytes: "0 \<le> v \<Longrightarrow> v < 256 ^ n \<Longrightarrow> le_value (le_bytes n v) = v"
proof (induction n arbitrary: v)
  case 0
  then show ?case by simp
next
  case (Suc n)
  have d: "0 \<le> v div 256" "v div 256 < 256 ^ n"
    using Suc.prems by (simp_all add: div_less_iff_less_mult mult.commute)
  have "uint (word_of_int v :: 8 word) = v mod 256"
    by (simp add: uint_word_of_int)
  with Suc.IH [OF d] show ?case
    by simp
qed

lemma length_bytes_of: "length (bytes_of s) = length s"
  by (simp add: bytes_of_def)

lemma length_spec_wav_header: "length (spec_wav_header p n) = 44"
  by (simp add: spec_wav_header_def length_le_bytes length_bytes_of)

lemma pack_field_error: "pack_field f = Inl e \<Longrightarrow> e = StructError"
  by (cases f) (auto split: if_splits)

lemma struct_pack_error: "struct_pack fs = Inl e \<Longrightarrow> e = StructError"
  by (induction fs arbitrary: e) (auto split: sum.splits dest: pack_field_error)

lemma struct_pack_Inr_all: "struct_pack fs = Inr bs \<Longrightarrow> f \<in> set fs \<Longrightarrow> \<exists>b. pack_field f = Inr b"
  by (induction fs arbitrary: bs) (auto split: sum.splits)

lemma convert_to_wav_fit:
  assumes "parse_audio_mime_type m = Inr p" and "wav_fields_fit p (length d)"
  shows "convert_to_wav d m = Inr (spec_wav_header p (length d) @ d)"
  using assms
  by (simp add: convert_to_wav_def wav_fields_fit_def spec_wav_header_def Let_def length_bytes_of)

lemma convert_to_wav_unfit:
  assumes p: "parse_audio_mime_type m = Inr p" and n: "\<not> wav_fields_fit p (length d)"
  shows "convert_to_wav d m = Inl StructError"
proof -
  let ?fs = "[S4 (bytes_of ''RIFF''), U32 (36 + int (length d)), S4 (bytes_of ''WAVE''),
              S4 (bytes_of ''fmt ''), U32 16, U16 1, U16 1, U32 (rate p),
              U32 (rate p * (1 * (bits_per_sample p div 8))), U16 (1 * (bits_per_sample p div 8)),
              U16 (bits_per_sample p), S4 (bytes_of ''data''), U32 (int (length d))]"
  have "\<exists>f \<in> set ?fs. \<forall>b. pack_field f \<noteq> Inr b"
    using n by (auto simp: wav_fields_fit_def)
  then have "\<forall>bs. struct_pack ?fs \<noteq> Inr bs"
    using struct_pack_Inr_all [of ?fs] by blast
  then obtain e where e: "struct_pack ?fs = Inl e"
    by (cases "struct_pack ?fs") auto
  then have "e = StructError"
    by (rule struct_pack_error)
  with e p show ?thesis
    by (simp add: convert_to_wav_def Let_def del: struct_pack.simps pack_field.simps)
qed

lemma read_le_header:
  "read_le 4 4 (spec_wav_header p n @ d) = le_value (le_bytes 4 (36 + int n))"
  "read_le 16 4 (spec_wav_header p n @ d) = le_value (le_bytes 4 16)"
  "read_le 20 2 (spec_wav_header p n @ d) = le_value (le_bytes 2 1)"
  "read_le 22 2 (spec_wav_header p n @ d) = le_value (le_bytes 2 1)"
  "read_le 24 4 (spec_wav_header p n @ d) = le_value (le_bytes 4 (rate p))"
  "read_le 28 4 (spec_wav_header p n @ d) = le_value (le_bytes 4 (rate p * (1 * (bits_per_sample p div 8))))"
  "read_le 32 2 (spec_wav_header p n @ d) = le_value (le_bytes 2 (1 * (bits_per_sample p div 8)))"
  "read_le 34 2 (spec_wav_header p n @ d) = le_value (le_bytes 2 (bits_per_sample p))"
  "read_le 40 4 (spec_wav_header p n @ d) = le_value (le_bytes 4 (int n))"
  by (simp_all add: read_le_def spec_wav_header_def length_le_bytes length_bytes_of)

lemma header_tags:
  "take 4 (spec_wav_header p n @ d) = [82, 73, 70, 70]"
  "take 4 (drop 8 (spec_wav_header p n @ d)) = [87, 65, 86, 69]"
  "take 4 (drop 12 (spec_wav_header p n @ d)) = [102, 109, 116, 32]"
  "take 4 (drop 36 (spec_wav_header p n @ d)) = [100, 97, 116, 97]"
  by (simp_all add: spec_wav_header_def bytes_of_def length_le_bytes)

lemma le_value_u32: "0 \<le> v \<Longrightarrow> v \<le> 4294967295 \<Longrightarrow> le_value (le_bytes 4 v) = v"
  by (rule le_value_le_bytes) simp_all

lemma le_value_u16: "0 \<le> v \<Longrightarrow> v \<le> 65535 \<Longrightarrow> le_value (le_bytes 2 v) = v"
  by (rule le_value_le_bytes) simp_all

text \<open>
  Claim C2, amended. For every payload and every MIME string whose parsed parameters keep the
  header's integer fields within their widths, \<open>convert_to_wav\<close> returns the 44 header
  bytes of the specification followed by the payload, and reading the little-endian
  fields back from the buffer gives the values they were built from: chunk size
  36 + payload length, format size 16, format tag 1, one channel, the sample rate, byte
  rate = rate * block align, block align = 1 * (bits div 8), the bit depth and the payload
  length. The four tags are the ASCII bytes of RIFF, WAVE, "fmt " and data.
\<close>

theorem convert_to_wav_layout:
  assumes "parse_audio_mime_type m = Inr p" and "wav_fields_fit p (length d)"
  shows "let wav = spec_wav_header p (length d) @ d
         in convert_to_wav d m = Inr wav
            \<and> length (spec_wav_header p (length d)) = 44
            \<and> length wav = 44 + length d
            \<and> drop 44 wav = d
            \<and> take 4 wav = [82, 73, 70, 70]
            \<and> take 4 (drop 8 wav) = [87, 65, 86, 69]
            \<and> take 4 (drop 12 wav) = [102, 109, 116, 32]
            \<and> take 4 (drop 36 wav) = [100, 97, 116, 97]
            \<and> read_le 4 4 wav = 36 + int (length d)
            \<and> read_le 16 4 wav = 16
            \<and> read_le 20 2 wav = 1
            \<and> read_le 22 2 wav = 1
            \<and> read_le 24 4 wav = rate p
            \<and> read_le 28 4 wav = rate p * (1 * (bits_per_sample p div 8))
            \<and> read_le 32 2 wav = 1 * (bits_per_sample p div 8)
            \<and> read_le 34 2 wav = bits_per_sample p
            \<and> read_le 40 4 wav = int (length d)"
proof -
  note f = assms(2) [unfolded wav_fields_fit_def]
  have c: "convert_to_wav d m = Inr (spec_wav_header p (length d) @ d)"
    using assms by (rule convert_to_wav_fit)
  have r: "le_value (le_bytes 4 (36 + int (length d))) = 36 + int (length d)"
    "le_value (le_bytes 4 16) = 16"
    "le_value (le_bytes 2 1) = 1"
    "le_value (le_bytes 4 (rate p)) = rate p"
    "le_value (le_bytes 4 (rate p * (1 * (bits_per_sample p div 8)))) = rate p * (1 * (bits_per_sample p div 8))"
    "le_value (le_bytes 2 (1 * (bits_per_sample p div 8))) = 1 * (bits_per_sample p div 8)"
    "le_value (le_bytes 2 (bits_per_sample p)) = bits_per_sample p"
    "le_value (le_bytes 4 (int (length d))) = int (length d)"
    using f by (simp_all add: le_value_u32 le_value_u16)
  show ?thesis
    unfolding Let_def read_le_header r header_tags
    using c by (simp add: length_spec_wav_header)
qed

lemma fit_default_48000:
  "wav_fields_fit \<lparr>bits_per_sample = 16, rate = 24000\<rparr> (length (replicate 48000 (0 :: 8 word)))"
  by (simp add: wav_fields_fit_def)

text \<open>
  The example of the specification: 16 bits, 24000 Hz and 48000 payload bytes give block
  align 2, byte rate 48000, data size 48000, chunk size 48036 and 48044 bytes in all.
\<close>

theorem convert_to_wav_layout_witness:
  "parse_audio_mime_type ''audio/L16;rate=24000'' = Inr \<lparr>bits_per_sample = 16, rate = 24000\<rparr>
   \<and> wav_fields_fit \<lparr>bits_per_sample = 16, rate = 24000\<rparr> (length (replicate 48000 (0 :: 8 word)))
   \<and> convert_to_wav (replicate 48000 0) ''audio/L16;rate=24000''
        = Inr (spec_wav_header \<lparr>bits_per_sample = 16, rate = 24000\<rparr> 48000 @ replicate 48000 0)
   \<and> length (spec_wav_header \<lparr>bits_per_sample = 16, rate = 24000\<rparr> 48000 @ replicate 48000 (0 :: 8 word)) = 48044
   \<and> read_le 32 2 (spec_wav_header \<lparr>bits_per_sample = 16, rate = 24000\<rparr> 48000 @ replicate 48000 0) = 2
   \<and> read_le 28 4 (spec_wav_header \<lparr>bits_per_sample = 16, rate = 24000\<rparr> 48000 @ replicate 48000 0) = 48000
   \<and> read_le 40 4 (spec_wav_header \<lparr>bits_per_sample = 16, rate = 24000\<rparr> 48000 @ replicate 48000 0) = 48000
   \<and> read_le 4 4 (spec_wav_header \<lparr>bits_per_sample = 16, rate = 24000\<rparr> 48000 @ replicate 48000 0) = 48036"
  using convert_to_wav_layout [OF parse_default_mime fit_default_48000] parse_default_mime fit_default_48000
  by (simp add: Let_def)

lemma parse_param_audio_L70000:
  "parse_param acc ''audio/L70000'' = Inr (acc\<lparr>bits_per_sample := 70000\<rparr>)"
  by (simp add: param_defs builtin_defs)

lemma parse_L70000:
  "parse_audio_mime_type ''audio/L70000'' = Inr \<lparr>bits_per_sample = 70000, rate = 24000\<rparr>"
  by (simp add: parse_audio_mime_type_def parse_param_audio_L70000)

text \<open>
  Claim C2 as stated fails: \<open>audio/L70000\<close> parses to a bit depth of 70000, which format
  code \<open>H\<close> refuses, so \<open>convert_to_wav\<close> raises \<open>struct.error\<close> and returns no buffer.
\<close>

theorem convert_to_wav_L70000_fails:
  "parse_audio_mime_type ''audio/L70000'' = Inr \<lparr>bits_per_sample = 70000, rate = 24000\<rparr>
   \<and> convert_to_wav [] ''audio/L70000'' = Inl StructError"
  using convert_to_wav_unfit [OF parse_L70000, of "[]"] parse_L70000
  by (simp add: wav_fields_fit_def)

text \<open>
  Claim C10. \<open>convert_to_wav\<close> succeeds, with a buffer of 44 + payload length bytes, when
  36 + payload length, the byte rate and the sample rate fit an unsigned 32-bit integer and
  the bit depth and the block align fit an unsigned 16-bit integer, none negative; outside
  these ranges the packing step raises \<open>struct.error\<close>.
\<close>

theorem convert_to_wav_succeeds_iff_fit:
  "\<exists>p. parse_audio_mime_type m = Inr p
     \<and> (wav_fields_fit p (length d)
          \<longrightarrow> (\<exists>wav. convert_to_wav d m = Inr wav \<and> length wav = 44 + length d))
     \<and> (\<not> wav_fields_fit p (length d) \<longrightarrow> convert_to_wav d m = Inl StructError)"
proof -
  obtain p where p: "parse_audio_mime_type m = Inr p"
    using parse_params_total by (auto simp: parse_audio_mime_type_def)
  have "wav_fields_fit p (length d)
          \<longrightarrow> (\<exists>wav. convert_to_wav d m = Inr wav \<and> length wav = 44 + length d)"
    using convert_to_wav_fit [OF p] by (auto simp: length_spec_wav_header)
  moreover have "\<not> wav_fields_fit p (length d) \<longrightarrow> convert_to_wav d m = Inl StructError"
    using convert_to_wav_unfit [OF p] by blast
  ultimately show ?thesis
    using p by blast
qed

lemma parse_param_rate_minus1: "parse_param acc ''rate=-1'' = Inr (acc\<lparr>rate := - 1\<rparr>)"
  by (simp add: param_defs builtin_defs)

lemma parse_rate_minus1:
  "parse_audio_mime_type ''rate=-1'' = Inr \<lparr>bits_per_sample = 16, rate = - 1\<rparr>"
  by (simp add: parse_audio_mime_type_def parse_param_rate_minus1)

text \<open>
  Two payload bytes with the default parameters give 46 bytes; a negative rate fails.
\<close>

theorem convert_to_wav_succeeds_iff_fit_witness:
  "wav_fields_fit \<lparr>bits_per_sample = 16, rate = 24000\<rparr> (length [1, 2 :: 8 word])
   \<and> map_sum id length (convert_to_wav [1, 2] ''audio/L16;rate=24000'') = Inr 46
   \<and> \<not> wav_fields_fit \<lparr>bits_per_sample = 16, rate = - 1\<rparr> (length ([] :: bytes))
   \<and> convert_to_wav [] ''rate=-1'' = Inl StructError"
proof -
  have a: "wav_fields_fit \<lparr>bits_per_sample = 16, rate = 24000\<rparr> (length [1, 2 :: 8 word])"
    and b: "\<not> wav_fields_fit \<lparr>bits_per_sample = 16, rate = - 1\<rparr> (length ([] :: bytes))"
    by (simp_all add: wav_fields_fit_def)
  from convert_to_wav_succeeds_iff_fit [of "''audio/L16;rate=24000''" "[1, 2]"] a
  have c: "map_sum id length (convert_to_wav [1, 2] ''audio/L16;rate=24000'') = Inr 46"
    by (auto simp: parse_default_mime)
  from convert_to_wav_succeeds_iff_fit [of "''rate=-1''" "[]"] b
  have d: "convert_to_wav [] ''rate=-1'' = Inl StructError"
    by (auto simp: parse_rate_minus1)
  from a b c d show ?thesis
    by blast
qed

section \<open>Properties of the chunk collector\<close>

lemma convert_to_wav_Inr:
  assumes "convert_to_wav d m = Inr wav"
  shows "\<exists>p. parse_audio_mime_type m = Inr p \<and> wav_fields_fit p (length d)
           \<and> wav = spec_wav_header p (length d) @ d"
proof -
  obtain p where p: "parse_audio_mime_type m = Inr p"
    using parse_params_total by (auto simp: parse_audio_mime_type_def)
  have f: "wav_fields_fit p (length d)"
    using convert_to_wav_unfit [OF p, of d] assms by (cases "wav_fields_fit p (length d)") simp_all
  from convert_to_wav_fit [OF p f] assms p f show ?thesis
    by simp
qed

lemma fit_default:
  "wav_fields_fit \<lparr>bits_per_sample = 16, rate = 24000\<rparr> n = (36 + int n \<le> 4294967295)"
  by (simp add: wav_fields_fit_def)

lemma Suc_numerals:
  "Suc (Suc (Suc 0)) = 3" "Suc (Suc (Suc (Suc (Suc 0)))) = 5"
  by simp_all

lemma chunks_process_chunk:
  "all_audio_chunks (process_chunk s c) = all_audio_chunks s @ payloads [c]"
  by (cases c) simp_all

lemma mime_process_chunk:
  "mime_type (process_chunk s c) = (case mime_type s of None \<Rightarrow> first_mime [c] | Some t \<Rightarrow> Some t)"
proof (cases c)
  case (InlineData d m)
  then show ?thesis
    by (cases m) (simp_all split: option.splits)
qed (simp_all split: option.splits)

lemma payloads_append: "payloads (xs @ ys) = payloads xs @ payloads ys"
  by (induction xs rule: payloads.induct) simp_all

lemma first_mime_append:
  "first_mime (xs @ ys) = (case first_mime xs of None \<Rightarrow> first_mime ys | Some t \<Rightarrow> Some t)"
  by (induction xs rule: first_mime.induct) simp_all

lemma chunks_foldl_process_chunk:
  "all_audio_chunks (foldl process_chunk s cs) = all_audio_chunks s @ payloads cs"
proof (induction cs arbitrary: s)
  case Nil
  show ?case by simp
next
  case (Cons c cs)
  show ?case
    using Cons.IH [of "process_chunk s c"] payloads_append [of "[c]" cs]
    by (simp add: chunks_process_chunk)
qed

lemma mime_foldl_process_chunk:
  "mime_type (foldl process_chunk s cs) =
     (case mime_type s of None \<Rightarrow> first_mime cs | Some t \<Rightarrow> Some t)"
proof (induction cs arbitrary: s)
  case Nil
  show ?case by (simp split: option.splits)
next
  case (Cons c cs)
  show ?case
    using Cons.IH [of "process_chunk s c"] first_mime_append [of "[c]" cs]
    by (simp add: mime_process_chunk split: option.splits)
qed

lemma combine_chunks_concat: "combine_chunks cs = concat cs"
proof -
  have "foldl (@) acc cs = acc @ concat cs" for acc :: bytes
    by (induction cs arbitrary: acc) simp_all
  then show ?thesis
    by (simp add: combine_chunks_def)
qed

lemma retry_loop_early:
  assumes "stream a = BeforeBar m" and "a < MAX_RETRIES - 1"
  shows "retry_loop stream (a # rest) s None ev =
           retry_loop stream rest s None (ev @ [AttemptStarted a, Slept RETRY_DELAY])"
  using assms by (simp add: Let_def)


lemma retry_loop_completed:
  assumes "stream a = Streamed cs None"
  shows "retry_loop stream (a # rest) s progress_bar ev =
           (Inr (foldl process_chunk s cs), ev @ [AttemptStarted a])"
  using assms by (simp add: Let_def)

lemma retry_loop_transport_error:
  assumes "stream a = Streamed cs (Some m)"
  shows "retry_loop stream (a # rest) s progress_bar ev = (Inl TypeError, ev @ [AttemptStarted a])"
  using assms by (simp add: Let_def)

lemma retries_Suc: "a < k \<Longrightarrow> retries a k = [AttemptStarted a, Slept RETRY_DELAY] @ retries (Suc a) k"
  by (simp add: retries_def upt_rec [of a])

lemma retries_same: "retries k k = []"
  by (simp add: retries_def)

lemma retry_loop_skips:
  assumes "\<forall>j. a \<le> j \<and> j < k \<longrightarrow> (\<exists>m. stream j = BeforeBar m)" and "a \<le> k" and "k < MAX_RETRIES"
  shows "retry_loop stream [a..<MAX_RETRIES] s None ev =
           retry_loop stream [k..<MAX_RETRIES] s None (ev @ retries a k)"
  using assms
proof (induction "k - a" arbitrary: a ev)
  case 0
  then have "a = k" by simp
  then show ?case by (simp add: retries_same)
next
  case (Suc d)
  then have ak: "a < k" by simp
  then have ar: "a < MAX_RETRIES - 1"
    using Suc.prems by simp
  obtain m where m: "stream a = BeforeBar m"
    using Suc.prems(1) ak by auto
  have l: "[a..<MAX_RETRIES] = a # [Suc a..<MAX_RETRIES]"
    using ak Suc.prems by (simp add: upt_rec)
  have ih: "retry_loop stream [Suc a..<MAX_RETRIES] s None ev' =
              retry_loop stream [k..<MAX_RETRIES] s None (ev' @ retries (Suc a) k)" for ev'
    using Suc.hyps(1) [of "Suc a" ev'] Suc.hyps(2) Suc.prems ak by simp
  show ?case
    unfolding l retry_loop_early [of stream a, OF m ar] ih retries_Suc [OF ak] by simp
qed

lemma retry_loop_completes:
  assumes "\<forall>j<k. \<exists>m. stream j = BeforeBar m" and "stream k = Streamed cs None" and "k < MAX_RETRIES"
  shows "retry_loop stream [0..<MAX_RETRIES] s None ev =
           (Inr (foldl process_chunk s cs), ev @ retry_trace 0 k)"
proof -
  have "retry_loop stream [0..<MAX_RETRIES] s None ev =
          retry_loop stream [k..<MAX_RETRIES] s None (ev @ retries 0 k)"
    using assms by (intro retry_loop_skips) simp_all
  moreover have "[k..<MAX_RETRIES] = k # [Suc k..<MAX_RETRIES]"
    using assms(3) by (simp add: upt_rec)
  ultimately show ?thesis
    by (simp only: retry_loop_completed [of stream k, OF assms(2)] retry_trace_def append_assoc)
qed

lemma retry_loop_fails_in_stream:
  assumes "\<forall>j<k. \<exists>m. stream j = BeforeBar m" and "stream k = Streamed cs (Some m)" and "k < MAX_RETRIES"
  shows "retry_loop stream [0..<MAX_RETRIES] s None ev =
           (Inl TypeError, ev @ retry_trace 0 k)"
proof -
  have "retry_loop stream [0..<MAX_RETRIES] s None ev =
          retry_loop stream [k..<MAX_RETRIES] s None (ev @ retries 0 k)"
    using assms by (intro retry_loop_skips) simp_all
  moreover have "[k..<MAX_RETRIES] = k # [Suc k..<MAX_RETRIES]"
    using assms(3) by (simp add: upt_rec)
  ultimately show ?thesis
    by (simp only: retry_loop_transport_error [of stream k, OF assms(2)] retry_trace_def append_assoc)
qed


lemma range_MAX_RETRIES: "[0..<MAX_RETRIES] = [0, 1, 2]"
  by (simp add: MAX_RETRIES_def upt_rec)

lemma str_nat_MAX_RETRIES: "str_nat MAX_RETRIES = ''3''"
  unfolding str_nat_def MAX_RETRIES_def str_digits.simps by simp


lemma retry_trace_simps:
  "retry_trace 0 0 = [AttemptStarted 0]"
  "retry_trace 0 1 = [AttemptStarted 0, Slept 2, AttemptStarted 1]"
  "retry_trace 0 2 = [AttemptStarted 0, Slept 2, AttemptStarted 1, Slept 2, AttemptStarted 2]"
  by (simp_all add: retry_trace_def retries_def RETRY_DELAY_def upt_rec)

lemma set_retry_trace:
  "a \<le> k \<Longrightarrow> set (retry_trace a k)
     \<subseteq> {e. (\<exists>j. a \<le> j \<and> j \<le> k \<and> e = AttemptStarted j) \<or> e = Slept RETRY_DELAY}"
  by (auto simp: retry_trace_def retries_def)

lemma set_retries:
  "set (retries a k) \<subseteq> {e. (\<exists>j. a \<le> j \<and> j < k \<and> e = AttemptStarted j) \<or> e = Slept RETRY_DELAY}"
  by (auto simp: retries_def)

lemma generate_podcast_audio_completes:
  assumes "k < MAX_RETRIES" and "\<forall>j<k. \<exists>m. stream j = BeforeBar m" and "stream k = Streamed cs None"
  shows "generate_podcast_audio g stream =
     (if payloads cs = []
      then (Inl (PyException ''No audio was generated. Please try again with a different topic.''),
            retry_trace 0 k)
      else
        (case (case first_mime cs of
                 None \<Rightarrow> None
               | Some t \<Rightarrow> if t = [] then None else g t) of
           Some ext \<Rightarrow> (Inr (ext, concat (payloads cs)), retry_trace 0 k)
         | None \<Rightarrow>
             (case convert_to_wav (concat (payloads cs)) (mime_or_default (first_mime cs)) of
                Inl e \<Rightarrow> (Inl e, retry_trace 0 k @ [WavEncoderCalled])
              | Inr wav \<Rightarrow> (Inr (''.wav'', wav), retry_trace 0 k @ [WavEncoderCalled]))))"
  using retry_loop_completes [OF assms(2,3,1), of "\<lparr>all_audio_chunks = [], mime_type = None\<rparr>" "[]"]
  by (simp add: generate_podcast_audio_def chunks_foldl_process_chunk mime_foldl_process_chunk
      combine_chunks_concat Let_def)

lemma generate_podcast_audio_transport_error:
  assumes "k < MAX_RETRIES" and "\<forall>j<k. \<exists>m. stream j = BeforeBar m" and "stream k = Streamed cs (Some m)"
  shows "generate_podcast_audio g stream = (Inl TypeError, retry_trace 0 k)"
  using retry_loop_fails_in_stream [OF assms(2,3,1), of "\<lparr>all_audio_chunks = [], mime_type = None\<rparr>" "[]"]
  by (simp add: generate_podcast_audio_def)

lemma generate_podcast_audio_early_failures:
  assumes "\<forall>j<MAX_RETRIES. stream j = BeforeBar (msg j)"
  shows "generate_podcast_audio g stream =
           (Inl (PyException (''Failed to generate audio after 3 attempts: '' @ msg 2)),
            [AttemptStarted 0, Slept 2, AttemptStarted 1, Slept 2, AttemptStarted 2])"
proof -
  from assms have "stream 0 = BeforeBar (msg 0)" "stream 1 = BeforeBar (msg 1)"
    "stream 2 = BeforeBar (msg 2)"
    by (simp_all add: MAX_RETRIES_def)
  then show ?thesis
    by (simp add: generate_podcast_audio_def range_MAX_RETRIES str_nat_MAX_RETRIES Let_def)
      (simp add: MAX_RETRIES_def RETRY_DELAY_def)
qed


section \<open>The claims about the chunk collector\<close>

text \<open>
  Claim C8. Once a MIME type is recorded, processing any further chunk, whatever MIME type
  it carries, leaves it unchanged; starting with none recorded, the MIME type after a
  stream is that of the first inline-data chunk carrying one, and this is the MIME type
  of the audio assembled by a successful first attempt.
\<close>

theorem first_mime_type_wins:
  "(mime_type s = Some t \<longrightarrow>
      mime_type (process_chunk s c) = Some t \<and> mime_type (foldl process_chunk s cs) = Some t)
   \<and> (mime_type s = None \<longrightarrow> mime_type (foldl process_chunk s cs) = first_mime cs)
   \<and> (stream 0 = Streamed cs0 None \<longrightarrow>
        (\<exists>r ev. retry_loop stream [0..<MAX_RETRIES] \<lparr>all_audio_chunks = [], mime_type = None\<rparr> None []
                   = (Inr r, ev)
           \<and> mime_type r = first_mime cs0))"
proof -
  have "stream 0 = Streamed cs0 None \<longrightarrow>
        (\<exists>r ev. retry_loop stream [0..<MAX_RETRIES] \<lparr>all_audio_chunks = [], mime_type = None\<rparr> None []
                   = (Inr r, ev)
           \<and> mime_type r = first_mime cs0)"
    by (simp add: range_MAX_RETRIES Let_def mime_foldl_process_chunk)
  then show ?thesis
    by (simp add: mime_foldl_process_chunk mime_process_chunk)
qed

text \<open>A later chunk announcing 24 bits at 48000 Hz does not replace the recorded type.\<close>

theorem first_mime_type_wins_witness:
  "mime_type \<lparr>all_audio_chunks = [[1]], mime_type = Some ''audio/L16;rate=24000''\<rparr> = Some ''audio/L16;rate=24000''
   \<and> mime_type (process_chunk \<lparr>all_audio_chunks = [[1]], mime_type = Some ''audio/L16;rate=24000''\<rparr>
        (InlineData [2] (Some ''audio/L24;rate=48000''))) = Some ''audio/L16;rate=24000''
   \<and> mime_type (foldl process_chunk \<lparr>all_audio_chunks = [], mime_type = None\<rparr>
        [TextOnly, InlineData [1] None, InlineData [2] (Some ''audio/L16;rate=24000''),
         InlineData [3] (Some ''audio/L24;rate=48000'')]) = Some ''audio/L16;rate=24000''
   \<and> fst (retry_loop (\<lambda>j. Streamed [InlineData [2] (Some ''audio/L16;rate=24000''),
                                    InlineData [3] (Some ''audio/L24;rate=48000'')] None)
        [0..<MAX_RETRIES] \<lparr>all_audio_chunks = [], mime_type = None\<rparr> None []) =
      Inr \<lparr>all_audio_chunks = [[2], [3]], mime_type = Some ''audio/L16;rate=24000''\<rparr>"
proof -
  let ?s = "\<lparr>all_audio_chunks = [[1 :: 8 word]], mime_type = Some ''audio/L16;rate=24000''\<rparr>"
  let ?n = "\<lparr>all_audio_chunks = ([] :: bytes list), mime_type = None\<rparr>"
  let ?cs = "[TextOnly, InlineData [1] None, InlineData [2] (Some ''audio/L16;rate=24000''),
         InlineData [3] (Some ''audio/L24;rate=48000'')]"
  let ?st = "\<lambda>j :: nat. Streamed [InlineData [2] (Some ''audio/L16;rate=24000''),
                              InlineData [3] (Some ''audio/L24;rate=48000'')] None"
  have a: "mime_type (process_chunk ?s (InlineData [2] (Some ''audio/L24;rate=48000''))) = Some ''audio/L16;rate=24000''"
    using first_mime_type_wins [of ?s "''audio/L16;rate=24000''" "InlineData [2] (Some ''audio/L24;rate=48000'')" "[]" ?st "[]"]
    by simp
  have b: "mime_type (foldl process_chunk ?n ?cs) = Some ''audio/L16;rate=24000''"
    using first_mime_type_wins [of ?n "''x''" TextOnly ?cs ?st "[]"]
    by simp
  have c: "fst (retry_loop ?st [0..<MAX_RETRIES] ?n None []) =
      Inr \<lparr>all_audio_chunks = [[2], [3]], mime_type = Some ''audio/L16;rate=24000''\<rparr>"
    by (simp add: range_MAX_RETRIES Let_def)
  from a b c show ?thesis
    by simp
qed

text \<open>
  Claim C4 says that a collaborator raising a transport error on every attempt is tried
  \<open>MAX_RETRIES\<close> = 3 times, \<open>RETRY_DELAY\<close> = 2 seconds apart, before a failure naming the
  attempt count and the last error is raised. The exception handler begins with
  \<open>if progress_bar:\<close>, and the bar of an attempt that reached its stream has no total:
  the truth test raises \<open>TypeError\<close>, which leaves the handler. Here the stream is reset
  by the peer in every attempt: one attempt is made, there is no delay and no second
  attempt, and the function ends with \<open>TypeError\<close> instead of the wrapped failure.
\<close>

theorem transport_error_ends_in_TypeError:
  "generate_podcast_audio (\<lambda>t. None) (\<lambda>j. Streamed [] (Some ''reset by peer'')) =
     (Inl TypeError, [AttemptStarted 0])"
  using generate_podcast_audio_transport_error [of 0 "\<lambda>j. Streamed [] (Some ''reset by peer'')" "[]" "''reset by peer''" "\<lambda>t. None"]
  by (simp add: MAX_RETRIES_def retry_trace_simps)

text \<open>
  Claim C3. When an attempt completes without a transport error (the attempts before it,
  if any, failed before they opened a stream) and it yielded no payload-bearing chunk,
  the collector raises the "No audio was generated" exception (the specification's
  EmptyAudioError). The events are those of the attempts up to the completed one: no
  attempt is started after it, so the condition is not retried, and the WAV encoder is
  never called.
\<close>

theorem empty_stream_is_terminal:
  assumes "k < MAX_RETRIES" and "\<forall>j<k. \<exists>m. stream j = BeforeBar m"
    and "stream k = Streamed cs None" and "payloads cs = []"
  shows "generate_podcast_audio g stream =
           (Inl (PyException ''No audio was generated. Please try again with a different topic.''),
            retry_trace 0 k)
         \<and> WavEncoderCalled \<notin> set (retry_trace 0 k)
         \<and> (\<forall>j. AttemptStarted j \<in> set (retry_trace 0 k) \<longrightarrow> j \<le> k)"
proof -
  have "set (retry_trace 0 k)
      \<subseteq> {e. (\<exists>j. 0 \<le> j \<and> j \<le> k \<and> e = AttemptStarted j) \<or> e = Slept RETRY_DELAY}"
    by (rule set_retry_trace) simp
  then have "WavEncoderCalled \<notin> set (retry_trace 0 k)"
    and "\<forall>j. AttemptStarted j \<in> set (retry_trace 0 k) \<longrightarrow> j \<le> k"
    by auto
  then show ?thesis
    using generate_podcast_audio_completes [OF assms(1-3), of g] assms(4) by simp
qed

text \<open>
  A first attempt that completes with a text-only and an empty element; and a first
  attempt that fails before its stream, followed by a second one that completes empty.
\<close>

theorem empty_stream_is_terminal_witness:
  "(0 :: nat) < MAX_RETRIES \<and> payloads [TextOnly, NoParts] = []
   \<and> generate_podcast_audio (\<lambda>t. None) (\<lambda>j. Streamed [TextOnly, NoParts] None) =
        (Inl (PyException ''No audio was generated. Please try again with a different topic.''),
         [AttemptStarted 0])
   \<and> WavEncoderCalled \<notin> set [AttemptStarted 0]
   \<and> (1 :: nat) < MAX_RETRIES
   \<and> generate_podcast_audio (\<lambda>t. None)
        (\<lambda>j. if j = 0 then BeforeBar ''no terminal'' else Streamed [NoParts, TextOnly] None) =
        (Inl (PyException ''No audio was generated. Please try again with a different topic.''),
         [AttemptStarted 0, Slept 2, AttemptStarted 1])
   \<and> WavEncoderCalled \<notin> set [AttemptStarted 0, Slept 2, AttemptStarted 1]"
proof -
  let ?s0 = "\<lambda>j :: nat. Streamed [TextOnly, NoParts] None"
  let ?s1 = "\<lambda>j :: nat. if j = 0 then BeforeBar ''no terminal'' else Streamed [NoParts, TextOnly] None"
  have a0: "(0 :: nat) < MAX_RETRIES" and a1: "(1 :: nat) < MAX_RETRIES"
    by (simp_all add: MAX_RETRIES_def)
  have b0: "\<forall>j<0 :: nat. \<exists>m. ?s0 j = BeforeBar m" by simp
  have b1: "\<forall>j<1 :: nat. \<exists>m. ?s1 j = BeforeBar m" by simp
  have c0: "?s0 0 = Streamed [TextOnly, NoParts] None" by simp
  have c1: "?s1 1 = Streamed [NoParts, TextOnly] None" by simp
  have d0: "payloads [TextOnly, NoParts] = []" and d1: "payloads [NoParts, TextOnly] = []"
    by simp_all
  note r0 = empty_stream_is_terminal [OF a0 b0 c0 d0, of "\<lambda>t. None", THEN conjunct1,
      unfolded retry_trace_simps]
  note r1 = empty_stream_is_terminal [OF a1 b1 c1 d1, of "\<lambda>t. None", THEN conjunct1,
      unfolded retry_trace_simps]
  from r0 r1 a0 a1 d0 show ?thesis
    by simp
qed

text \<open>
  Claim C7 as stated fails: a first attempt that completes with the single chunk 1, whose
  MIME type \<open>audio/L70000\<close> has no known file extension, reaches the encoder, and the
  encoder raises \<open>struct.error\<close> on the bit depth 70000; no WAV buffer is returned.
\<close>

theorem chunk_with_L70000_is_not_encoded:
  "generate_podcast_audio (\<lambda>t. None) (\<lambda>j. Streamed [InlineData [1] (Some ''audio/L70000'')] None) =
     (Inl StructError, [AttemptStarted 0, WavEncoderCalled])"
proof -
  let ?st = "\<lambda>j :: nat. Streamed [InlineData [1] (Some ''audio/L70000'')] None"
  have a: "(0 :: nat) < MAX_RETRIES" by (simp add: MAX_RETRIES_def)
  have b: "\<forall>j<0 :: nat. \<exists>m. ?st j = BeforeBar m" by simp
  have c: "?st 0 = Streamed [InlineData [1] (Some ''audio/L70000'')] None" by simp
  have w: "convert_to_wav [1] ''audio/L70000'' = Inl StructError"
    using convert_to_wav_unfit [OF parse_L70000, of "[1]"] by (simp add: wav_fields_fit_def)
  show ?thesis
    unfolding generate_podcast_audio_completes [OF a b c] retry_trace_simps
    by (simp add: mime_or_default_def w)
qed

text \<open>
  Claim C7, amended. For a first attempt that completes having yielded the payload-bearing
  chunks c1..cn, n at least 1: whenever the function encodes and returns a WAV buffer, the
  buffer has 44 + |c1..cn| bytes and its bytes after the first 44 are c1, c2, .., cn
  concatenated in arrival order; and it does encode and return that buffer, header first,
  whenever no file extension is known for the recorded MIME type and the header fields
  fit their widths.
\<close>

theorem payload_region_is_concatenation:
  assumes "stream 0 = Streamed cs None" and "payloads cs \<noteq> []"
  shows "(\<forall>ext out ev.
            generate_podcast_audio g stream = (Inr (ext, out), ev) \<and> WavEncoderCalled \<in> set ev
            \<longrightarrow> ext = ''.wav''
                \<and> length out = 44 + length (concat (payloads cs))
                \<and> drop 44 out = concat (payloads cs))
     \<and> (\<forall>p. (\<forall>t. first_mime cs = Some t \<and> t \<noteq> [] \<longrightarrow> g t = None)
            \<and> parse_audio_mime_type (mime_or_default (first_mime cs)) = Inr p
            \<and> wav_fields_fit p (length (concat (payloads cs)))
            \<longrightarrow> generate_podcast_audio g stream =
                  (Inr (''.wav'', spec_wav_header p (length (concat (payloads cs)))
                                   @ concat (payloads cs)),
                   [AttemptStarted 0, WavEncoderCalled]))"
proof -
  let ?d = "concat (payloads cs)"
  have k: "(0 :: nat) < MAX_RETRIES" by (simp add: MAX_RETRIES_def)
  have n: "\<forall>j<0 :: nat. \<exists>m. stream j = BeforeBar m" by simp
  note gen = generate_podcast_audio_completes [OF k n assms(1), of g, unfolded retry_trace_simps]
  have A: "ext = ''.wav'' \<and> length out = 44 + length ?d \<and> drop 44 out = ?d"
    if h: "generate_podcast_audio g stream = (Inr (ext, out), ev)" and e: "WavEncoderCalled \<in> set ev"
    for ext out ev
  proof -
    let ?x = "case first_mime cs of None \<Rightarrow> None | Some t \<Rightarrow> if t = [] then None else g t"
    let ?w = "convert_to_wav ?d (mime_or_default (first_mime cs))"
    note h' = h [unfolded gen]
    have w: "?w = Inr out \<and> ext = ''.wav''"
    proof (cases ?x)
      case (Some x)
      with h' assms(2) have "ev = [AttemptStarted 0]"
        by simp
      with e show ?thesis
        by simp
    next
      case None
      show ?thesis
      proof (cases ?w)
        case (Inl err)
        with h' assms(2) None show ?thesis
          by simp
      next
        case (Inr wav)
        with h' assms(2) None show ?thesis
          by simp
      qed
    qed
    then obtain p where "out = spec_wav_header p (length ?d) @ ?d"
      using convert_to_wav_Inr [of ?d "mime_or_default (first_mime cs)" out] by blast
    with w show ?thesis
      by (simp add: length_spec_wav_header)
  qed
  have B: "generate_podcast_audio g stream =
             (Inr (''.wav'', spec_wav_header p (length ?d) @ ?d), [AttemptStarted 0, WavEncoderCalled])"
    if x: "\<forall>t. first_mime cs = Some t \<and> t \<noteq> [] \<longrightarrow> g t = None"
      and p: "parse_audio_mime_type (mime_or_default (first_mime cs)) = Inr p"
      and f: "wav_fields_fit p (length ?d)"
    for p
  proof -
    from x have "(case first_mime cs of None \<Rightarrow> None | Some t \<Rightarrow> if t = [] then None else g t) = None"
      by (auto split: option.splits)
    then show ?thesis
      using gen assms(2) convert_to_wav_fit [OF p f] by simp
  qed
  show ?thesis
  proof (intro conjI allI impI)
    fix ext out ev
    assume "generate_podcast_audio g stream = (Inr (ext, out), ev) \<and> WavEncoderCalled \<in> set ev"
    then have r: "ext = ''.wav'' \<and> length out = 44 + length ?d \<and> drop 44 out = ?d"
      using A by blast
    from r show "ext = ''.wav''" by simp
    from r show "length out = 44 + length ?d" by simp
    from r show "drop 44 out = ?d" by simp
  next
    fix p
    assume "(\<forall>t. first_mime cs = Some t \<and> t \<noteq> [] \<longrightarrow> g t = None)
            \<and> parse_audio_mime_type (mime_or_default (first_mime cs)) = Inr p
            \<and> wav_fields_fit p (length ?d)"
    then show "generate_podcast_audio g stream =
             (Inr (''.wav'', spec_wav_header p (length ?d) @ ?d), [AttemptStarted 0, WavEncoderCalled])"
      using B by blast
  qed
qed

text \<open>Two payload chunks around a text-only element, with the default MIME type.\<close>

theorem payload_region_is_concatenation_witness:
  "payloads [InlineData [1, 2] (Some ''audio/L16;rate=24000''), TextOnly, InlineData [3] None] = [[1, 2], [3]]
   \<and> generate_podcast_audio (\<lambda>t. None)
        (\<lambda>j. Streamed [InlineData [1, 2] (Some ''audio/L16;rate=24000''), TextOnly, InlineData [3] None] None) =
      (Inr (''.wav'', spec_wav_header \<lparr>bits_per_sample = 16, rate = 24000\<rparr> 3 @ [1, 2, 3]),
       [AttemptStarted 0, WavEncoderCalled])
   \<and> drop 44 (spec_wav_header \<lparr>bits_per_sample = 16, rate = 24000\<rparr> 3 @ [1, 2, 3]) = [1, 2, 3]
   \<and> length (spec_wav_header \<lparr>bits_per_sample = 16, rate = 24000\<rparr> 3 @ [1, 2, 3 :: 8 word]) = 47"
proof -
  let ?cs = "[InlineData [1, 2] (Some ''audio/L16;rate=24000''), TextOnly, InlineData [3] None]"
  let ?st = "\<lambda>j :: nat. Streamed ?cs None"
  let ?g = "\<lambda>t :: string. None :: string option"
  let ?p = "\<lparr>bits_per_sample = 16, rate = 24000\<rparr>"
  have a: "?st 0 = Streamed ?cs None" by simp
  have b: "payloads ?cs \<noteq> []" by simp
  note inst = payload_region_is_concatenation [of ?st ?cs ?g, OF a b]
  note instA = inst [THEN conjunct1, rule_format]
  note instB = inst [THEN conjunct2, rule_format]
  have m: "parse_audio_mime_type (mime_or_default (first_mime ?cs)) = Inr ?p"
    by (simp add: mime_or_default_def parse_default_mime)
  have f: "wav_fields_fit ?p (length (concat (payloads ?cs)))"
    by (simp add: fit_default)
  have x: "\<forall>t. first_mime ?cs = Some t \<and> t \<noteq> [] \<longrightarrow> ?g t = None"
    by simp
  have "generate_podcast_audio ?g ?st =
      (Inr (''.wav'', spec_wav_header ?p (length (concat (payloads ?cs))) @ concat (payloads ?cs)),
       [AttemptStarted 0, WavEncoderCalled])"
    by (rule instB) (intro conjI x m f)
  then have gen: "generate_podcast_audio ?g ?st =
      (Inr (''.wav'', spec_wav_header ?p 3 @ [1, 2, 3]), [AttemptStarted 0, WavEncoderCalled])"
    by (simp add: Suc_numerals)
  have e: "WavEncoderCalled \<in> set [AttemptStarted 0, WavEncoderCalled]"
    by simp
  have "length (spec_wav_header ?p 3 @ [1, 2, 3 :: 8 word]) = 44 + length (concat (payloads ?cs))"
    and "drop 44 (spec_wav_header ?p 3 @ [1, 2, 3 :: 8 word]) = concat (payloads ?cs)"
    using instA [OF conjI [OF gen e]] by blast+
  with gen show ?thesis
    by simp
qed

text \<open>
  Claim C9 as stated fails: one chunk of 4294967260 bytes without MIME type is given to the
  encoder with the default MIME string, 36 + 4294967260 does not fit the 32-bit chunk
  size, and the encoder raises \<open>struct.error\<close>; nothing is WAV-encoded.
\<close>

theorem oversize_payload_is_not_encoded:
  "generate_podcast_audio (\<lambda>t. None) (\<lambda>j. Streamed [InlineData (replicate 4294967260 0) None] None) =
     (Inl StructError, [AttemptStarted 0, WavEncoderCalled])"
proof -
  define d :: bytes where "d = replicate 4294967260 0"
  let ?st = "\<lambda>j :: nat. Streamed [InlineData d None] None"
  have len: "length d = 4294967260" by (simp add: d_def)
  have a: "(0 :: nat) < MAX_RETRIES" by (simp add: MAX_RETRIES_def)
  have b: "\<forall>j<0 :: nat. \<exists>m. ?st j = BeforeBar m" by simp
  have c: "?st 0 = Streamed [InlineData d None] None" by simp
  have w: "convert_to_wav d ''audio/L16;rate=24000'' = Inl StructError"
    using convert_to_wav_unfit [OF parse_default_mime, of d] by (simp add: fit_default len)
  have ne: "d \<noteq> []" using len by auto
  have "generate_podcast_audio (\<lambda>t. None) ?st = (Inl StructError, [AttemptStarted 0, WavEncoderCalled])"
    unfolding generate_podcast_audio_completes [OF a b c] retry_trace_simps
    by (simp add: mime_or_default_def default_mime_def w)
  then show ?thesis
    unfolding d_def .
qed

text \<open>
  Claim C9, amended. When the run completes with payload-bearing chunks none of which
  carried a MIME type, and the combined payload has at most 4294967259 bytes, the function
  calls the WAV encoder on the combined payload with the MIME string
  \<open>audio/L16;rate=24000\<close> and saves the result under the extension \<open>.wav\<close>, whatever
  \<open>guess_extension\<close> would answer; that string parses to 16 bits and 24000 Hz, and the
  header read back says 16 bits, 24000 Hz and one channel.
\<close>

theorem default_mime_when_none_recorded:
  assumes "k < MAX_RETRIES" and "\<forall>j<k. \<exists>m. stream j = BeforeBar m" and "stream k = Streamed cs None"
    and "payloads cs \<noteq> []" and "first_mime cs = None"
    and "36 + int (length (concat (payloads cs))) \<le> 4294967295"
  shows "let data = concat (payloads cs);
             wav = spec_wav_header \<lparr>bits_per_sample = 16, rate = 24000\<rparr> (length data) @ data
         in generate_podcast_audio g stream = (Inr (''.wav'', wav), retry_trace 0 k @ [WavEncoderCalled])
            \<and> convert_to_wav data ''audio/L16;rate=24000'' = Inr wav
            \<and> parse_audio_mime_type ''audio/L16;rate=24000'' = Inr \<lparr>bits_per_sample = 16, rate = 24000\<rparr>
            \<and> read_le 34 2 wav = 16 \<and> read_le 24 4 wav = 24000 \<and> read_le 22 2 wav = 1"
proof -
  let ?d = "concat (payloads cs)"
  let ?p = "\<lparr>bits_per_sample = 16, rate = 24000\<rparr>"
  have f: "wav_fields_fit ?p (length ?d)"
    using assms(6) by (simp add: fit_default)
  note w = convert_to_wav_fit [OF parse_default_mime f]
  have gen: "generate_podcast_audio g stream =
      (Inr (''.wav'', spec_wav_header ?p (length ?d) @ ?d), retry_trace 0 k @ [WavEncoderCalled])"
    using generate_podcast_audio_completes [OF assms(1-3), of g] assms(4,5) w
    by (simp add: mime_or_default_def default_mime_def)
  have "le_value (le_bytes 2 16) = 16" "le_value (le_bytes 4 24000) = 24000" "le_value (le_bytes 2 1) = 1"
    by (simp_all add: le_value_u16 le_value_u32)
  then show ?thesis
    using gen w parse_default_mime by (simp add: Let_def read_le_header)
qed

text \<open>
  Two chunks without MIME type and a \<open>guess_extension\<close> that knows every type, in a first
  attempt and in a second attempt after one that failed before its stream.
\<close>

theorem default_mime_when_none_recorded_witness:
  "generate_podcast_audio (\<lambda>t. Some ''.bin'') (\<lambda>j. Streamed [InlineData [5] None, InlineData [6, 7] None] None) =
      (Inr (''.wav'', spec_wav_header \<lparr>bits_per_sample = 16, rate = 24000\<rparr> 3 @ [5, 6, 7]),
       [AttemptStarted 0, WavEncoderCalled])
   \<and> generate_podcast_audio (\<lambda>t. Some ''.bin'')
        (\<lambda>j. if j = 0 then BeforeBar ''no terminal''
             else Streamed [InlineData [5] None, InlineData [6, 7] None] None) =
      (Inr (''.wav'', spec_wav_header \<lparr>bits_per_sample = 16, rate = 24000\<rparr> 3 @ [5, 6, 7]),
       [AttemptStarted 0, Slept 2, AttemptStarted 1, WavEncoderCalled])
   \<and> read_le 34 2 (spec_wav_header \<lparr>bits_per_sample = 16, rate = 24000\<rparr> 3 @ [5, 6, 7]) = 16
   \<and> read_le 24 4 (spec_wav_header \<lparr>bits_per_sample = 16, rate = 24000\<rparr> 3 @ [5, 6, 7]) = 24000
   \<and> read_le 22 2 (spec_wav_header \<lparr>bits_per_sample = 16, rate = 24000\<rparr> 3 @ [5, 6, 7]) = 1"
proof -
  let ?cs = "[InlineData [5] None, InlineData [6, 7] None]"
  let ?s0 = "\<lambda>j :: nat. Streamed ?cs None"
  let ?s1 = "\<lambda>j :: nat. if j = 0 then BeforeBar ''no terminal'' else Streamed ?cs None"
  have a0: "(0 :: nat) < MAX_RETRIES" and a1: "(1 :: nat) < MAX_RETRIES"
    by (simp_all add: MAX_RETRIES_def)
  have b0: "\<forall>j<0 :: nat. \<exists>m. ?s0 j = BeforeBar m" by simp
  have b1: "\<forall>j<1 :: nat. \<exists>m. ?s1 j = BeforeBar m" by simp
  have c0: "?s0 0 = Streamed ?cs None" by simp
  have c1: "?s1 1 = Streamed ?cs None" by simp
  have d: "payloads ?cs \<noteq> []" by simp
  have e: "first_mime ?cs = None" by simp
  have f: "36 + int (length (concat (payloads ?cs))) \<le> 4294967295" by simp
  note r0 = default_mime_when_none_recorded [OF a0 b0 c0 d e f, of "\<lambda>t. Some ''.bin''",
      unfolded Let_def retry_trace_simps]
  note r1 = default_mime_when_none_recorded [OF a1 b1 c1 d e f, of "\<lambda>t. Some ''.bin''",
      unfolded Let_def retry_trace_simps]
  from r0 r1 show ?thesis
    by (simp add: Suc_numerals)
qed



end
